theory Spec2Isabelle
  imports Main "HOL-Library.Multiset" "HOL-Library.Sublist"
begin

section \<open>mkmovies.py: grouping images by modification time\<close>

text \<open>
  The embedding follows \<^verbatim>\<open>src/mkmovies.py\<close>. A modification time is a
  \<^verbatim>\<open>datetime\<close>, which has a resolution of one microsecond: it is modelled as
  the integer number of microseconds since the epoch. Exceptions are values of the
  type \<open>exc\<close>; a function that can raise returns \<open>exc + 'a\<close>.
\<close>

datatype exc =
    AssertionError
  | CalledProcessError int
  | OSError
  | SystemExit int
  | FormatError

subsection \<open>compute\_gap\<close>

text \<open>
  \<^verbatim>\<open>round(tdelta.total_seconds())\<close>: the span in microseconds divided by
  \<open>10^6\<close> and rounded to the nearest integer, a tie going to the even neighbour
  (the rounding of Python 3). \<open>round_seconds\<close> works on the exact quotient; the
  floating-point quotient of \<^verbatim>\<open>total_seconds\<close> falls on the same side of
  every half for spans below \<open>9 * 10^9\<close> seconds.
\<close>

definition round_seconds :: "int \<Rightarrow> int" where
  "round_seconds k =
     (let q = k div 1000000; r = k mod 1000000
      in if r < 500000 then q
         else if 500000 < r then q + 1
         else if even q then q else q + 1)"

definition compute_gap :: "int \<Rightarrow> int \<Rightarrow> int" where
  "compute_gap time0 time1 = round_seconds (abs (time1 - time0))"

subsection \<open>group\_by\_mtime\<close>

text \<open>
  One iteration of the loop over the sorted list. \<open>lastgroup.extend\<close> changes the
  last group in place; no other reference to that group is live, so the model
  replaces the last element of \<open>outlist\<close>. The first assertion is a branch of the
  model; the second one (the item is a pair) holds by typing.
\<close>

definition group_step ::
  "int \<Rightarrow> (int \<times> 'a) list list \<Rightarrow> int \<times> 'a \<Rightarrow> exc + (int \<times> 'a) list list" where
  "group_step gap outlist nextitem =
     (if length outlist = 0 then Inr [[nextitem]]
      else
        let lastgroup = last outlist in
        if \<not> (length lastgroup > 0) then Inl AssertionError
        else
          let lastitem = last lastgroup in
          if compute_gap (fst lastitem) (fst nextitem) \<ge> gap
          then Inr (outlist @ [[nextitem]])
          else Inr (butlast outlist @ [lastgroup @ [nextitem]]))"

fun group_loop ::
  "int \<Rightarrow> (int \<times> 'a) list list \<Rightarrow> (int \<times> 'a) list \<Rightarrow> exc + (int \<times> 'a) list list" where
  "group_loop gap outlist [] = Inr outlist"
| "group_loop gap outlist (nextitem # rest) =
     (case group_step gap outlist nextitem of
        Inl e \<Rightarrow> Inl e
      | Inr outlist' \<Rightarrow> group_loop gap outlist' rest)"

text \<open>\<^verbatim>\<open>sorted(alist, key=lambda x: x[0])\<close> is a stable sort, as \<open>sort_key\<close> is.\<close>

definition group_by_mtime :: "(int \<times> 'a) list \<Rightarrow> int \<Rightarrow> exc + (int \<times> 'a) list list" where
  "group_by_mtime alist gap = group_loop gap [] (sort_key fst alist)"

text \<open>The properties of a grouping that the specification names.\<close>

definition within_gap :: "int \<Rightarrow> (int \<times> 'a) list \<Rightarrow> bool" where
  "within_gap gap g = successively (\<lambda>a b. compute_gap (fst a) (fst b) < gap) g"

definition across_gap :: "int \<Rightarrow> (int \<times> 'a) list list \<Rightarrow> bool" where
  "across_gap gap gs =
     successively (\<lambda>g h. gap \<le> compute_gap (fst (last g)) (fst (hd h))) gs"

definition nonempty_groups :: "'a list list \<Rightarrow> bool" where
  "nonempty_groups gs = list_all (\<lambda>g. g \<noteq> []) gs"

section \<open>mkmovies.py: staging the images and running the encoder\<close>

subsection \<open>Strings\<close>

text \<open>
  \<open>str_nat\<close> is the decimal text of a non-negative integer and \<open>str_int\<close> that of
  any integer (\<^verbatim>\<open>"{}".format(n)\<close>). \<open>format_0d w n\<close> is
  \<^verbatim>\<open>"{:0wd}".format(n)\<close> for the indices of \<^verbatim>\<open>enumerate\<close>, which are
  not negative: the decimal text, filled with zeros on the left up to the width \<open>w\<close>
  and never cut.
\<close>

fun str_nat :: "nat \<Rightarrow> string" where
  "str_nat n =
     (if n < 10 then [''0123456789'' ! n]
      else str_nat (n div 10) @ [''0123456789'' ! (n mod 10)])"

definition str_int :: "int \<Rightarrow> string" where
  "str_int i = (if i < 0 then ''-'' @ str_nat (nat (- i)) else str_nat (nat i))"

definition format_0d :: "nat \<Rightarrow> nat \<Rightarrow> string" where
  "format_0d w n = replicate (w - length (str_nat n)) (CHR ''0'') @ str_nat n"

text \<open>
  The whitespace of \<^verbatim>\<open>str.strip()\<close> and \<^verbatim>\<open>str.split()\<close> among the
  code points below 256.
\<close>

definition is_space :: "char \<Rightarrow> bool" where
  "is_space c = (of_char c \<in> {9, 10, 11, 12, 13, 28, 29, 30, 31, 32, 133, 160 :: nat})"

definition py_strip :: "string \<Rightarrow> string" where
  "py_strip s = rev (dropWhile is_space (rev (dropWhile is_space s)))"

fun split_acc :: "string \<Rightarrow> string \<Rightarrow> string list" where
  "split_acc cur [] = (if cur = [] then [] else [cur])"
| "split_acc cur (c # cs) =
     (if is_space c then (if cur = [] then split_acc [] cs else cur # split_acc [] cs)
      else split_acc (cur @ [c]) cs)"

definition py_split :: "string \<Rightarrow> string list" where
  "py_split s = split_acc [] s"

subsection \<open>External commands\<close>

text \<open>
  The program acts on the file system only by running \<^verbatim>\<open>mktemp\<close>,
  \<^verbatim>\<open>ln\<close>, \<^verbatim>\<open>ls\<close>, \<^verbatim>\<open>ffmpeg\<close> and \<^verbatim>\<open>rm\<close>, and
  by printing. The state is the list of these events so far, oldest first. What a
  command does is not the program's: a \<open>world\<close> gives, for the events so far and
  an argument vector, either the exit status with the decoded standard output, or
  the fact that the command could not be started.
\<close>

datatype event = Print string | Run "string list"

datatype proc = Exited int string | NotStarted

type_synonym world = "event list \<Rightarrow> string list \<Rightarrow> proc"

definition print :: "string \<Rightarrow> event list \<Rightarrow> event list" where
  "print msg tr = tr @ [Print msg]"

text \<open>
  \<^verbatim>\<open>subprocess.call\<close> returns the exit status whatever it is, and raises
  \<open>OSError\<close> when the command cannot be started; it never raises
  \<open>CalledProcessError\<close>. \<^verbatim>\<open>subprocess.check_output\<close> returns the output of
  a command that exits with 0 and raises \<open>CalledProcessError\<close> otherwise.
\<close>

definition subprocess_call :: "world \<Rightarrow> string list \<Rightarrow> event list \<Rightarrow> event list \<times> (exc + int)" where
  "subprocess_call w argv tr =
     (tr @ [Run argv],
      case w tr argv of Exited rc out \<Rightarrow> Inr rc | NotStarted \<Rightarrow> Inl OSError)"

definition check_output :: "world \<Rightarrow> string list \<Rightarrow> event list \<Rightarrow> event list \<times> (exc + string)" where
  "check_output w argv tr =
     (tr @ [Run argv],
      case w tr argv of
        Exited rc out \<Rightarrow> if rc = 0 then Inr out else Inl (CalledProcessError rc)
      | NotStarted \<Rightarrow> Inl OSError)"

subsection \<open>sequential\_links\<close>

text \<open>
  \<^verbatim>\<open>(tmp + "/{0:06d}.jpg").format(idx)\<close>. The directory name is part of the
  template, so a brace in it would be read as a replacement field or an escape;
  \<^verbatim>\<open>mktemp -d -p /tmp make_movie.XXXXXX\<close> prints no such name, and the model
  stops with \<open>FormatError\<close> there.
\<close>

definition link_path :: "string \<Rightarrow> nat \<Rightarrow> exc + string" where
  "link_path tmp idx =
     (if CHR ''{'' \<in> set tmp \<or> CHR ''}'' \<in> set tmp then Inl FormatError
      else Inr (tmp @ ''/'' @ format_0d 6 idx @ ''.jpg''))"

definition mkdir_cmd :: "string list" where
  "mkdir_cmd = py_split ''mktemp -d -p /tmp make_movie.XXXXXX''"

text \<open>The loop over \<^verbatim>\<open>enumerate(fpaths)\<close>, from index \<open>idx\<close> on.\<close>

fun make_links ::
  "world \<Rightarrow> string \<Rightarrow> nat \<Rightarrow> string list \<Rightarrow> event list \<Rightarrow> event list \<times> (exc + unit)" where
  "make_links w tmp idx [] tr = (tr, Inr ())"
| "make_links w tmp idx (fpath # rest) tr =
     (case link_path tmp idx of
        Inl e \<Rightarrow> (tr, Inl e)
      | Inr link \<Rightarrow>
          (case subprocess_call w [''ln'', ''-s'', fpath, link] tr of
             (tr', Inl (CalledProcessError rc)) \<Rightarrow>
               (print (''ERROR: failed to link file '' @ fpath @ '' -> '' @ link
                         @ ''. (rc = '' @ str_int rc @ '')'') tr',
                Inl (SystemExit 1))
           | (tr', Inl e) \<Rightarrow> (tr', Inl e)
           | (tr', Inr rc) \<Rightarrow> make_links w tmp (Suc idx) rest tr'))"

text \<open>
  The generator up to its \<^verbatim>\<open>yield\<close>: what entering the \<^verbatim>\<open>with\<close>
  block runs. It returns the directory that is yielded.
\<close>

definition sequential_links_enter ::
  "world \<Rightarrow> string list \<Rightarrow> event list \<Rightarrow> event list \<times> (exc + string)" where
  "sequential_links_enter w fpaths tr =
     (case check_output w mkdir_cmd tr of
        (tr1, Inl (CalledProcessError rc)) \<Rightarrow>
          (print (''ERROR: failed to create tmp dir. (rc = '' @ str_int rc @ '')'') tr1,
           Inl (SystemExit 1))
      | (tr1, Inl e) \<Rightarrow> (tr1, Inl e)
      | (tr1, Inr out) \<Rightarrow>
          (let tmp = py_strip out;
               tr2 = print (''Made tmp dir '' @ tmp) tr1
           in (case make_links w tmp 0 fpaths tr2 of
                 (tr3, Inl e) \<Rightarrow> (tr3, Inl e)
               | (tr3, Inr u) \<Rightarrow>
                   (case check_output w [''ls'', ''-l'', tmp] tr3 of
                      (tr4, Inl e) \<Rightarrow> (tr4, Inl e)
                    | (tr4, Inr link_list) \<Rightarrow> (print link_list tr4, Inr tmp)))))"

text \<open>
  The generator after its \<^verbatim>\<open>yield\<close>: it is resumed there only when the body
  of the \<^verbatim>\<open>with\<close> block ends without an exception.
\<close>

definition sequential_links_exit ::
  "world \<Rightarrow> string \<Rightarrow> event list \<Rightarrow> event list \<times> (exc + unit)" where
  "sequential_links_exit w tmp tr =
     (case subprocess_call w [''rm'', ''-rf'', tmp] (print ''Cleaning up tmp dir'' tr) of
        (tr', Inl e) \<Rightarrow> (tr', Inl e)
      | (tr', Inr rc) \<Rightarrow> (tr', Inr ()))"

subsection \<open>assemble\_movie\<close>

text \<open>\<^verbatim>\<open>x[-3:]\<close>: the last three characters, or all of a shorter string.\<close>

definition last3 :: "string \<Rightarrow> string" where
  "last3 x = drop (length x - 3) x"

definition in_files_of :: "string list \<Rightarrow> string list" where
  "in_files_of fpaths =
     [x. sub \<leftarrow> map (\<lambda>f. [''-i'', f]) fpaths, x \<leftarrow> sub, last3 x = ''jpg'']"

definition FFMPEG_RATE :: int where
  "FFMPEG_RATE = 4"

definition ffmpeg_args :: "string \<Rightarrow> string \<Rightarrow> string" where
  "ffmpeg_args tmp name =
     ''ffmpeg -f image2 -i '' @ tmp @ ''/%06d.jpg -r '' @ str_int FFMPEG_RATE
       @ '' '' @ name @ ''.mp4''"

text \<open>
  \<open>cwd\<close> is what \<^verbatim>\<open>os.getcwd()\<close> returns. An exception raised in the body of
  the \<^verbatim>\<open>with\<close> block is thrown into the generator at its \<^verbatim>\<open>yield\<close>,
  which has no handler around it: the exception leaves the block and the code after
  the \<^verbatim>\<open>yield\<close> is not run.
\<close>

definition assemble_movie ::
  "world \<Rightarrow> string \<Rightarrow> string list \<Rightarrow> string \<Rightarrow> event list \<Rightarrow> event list \<times> (exc + int)" where
  "assemble_movie w cwd fpaths name tr =
     (let in_files = in_files_of fpaths in
      if length in_files = 0
      then (print ''Abort: no jpg files found in group!'' tr, Inr 1)
      else
        (let full_files = map (\<lambda>f. cwd @ ''/'' @ f) in_files in
         (case sequential_links_enter w full_files tr of
            (tr1, Inl e) \<Rightarrow> (tr1, Inl e)
          | (tr1, Inr tmp) \<Rightarrow>
              (let args = ffmpeg_args tmp name;
                   tr2 = print (''Assembling movie '' @ name @ ''.mp4 ...'') tr1;
                   tr3 = print (''Running: '' @ args) tr2
               in (case subprocess_call w (py_split args) tr3 of
                     (tr4, Inl e) \<Rightarrow> (tr4, Inl e)
                   | (tr4, Inr ret) \<Rightarrow>
                       (case sequential_links_exit w tmp tr4 of
                          (tr5, Inl e) \<Rightarrow> (tr5, Inl e)
                        | (tr5, Inr u) \<Rightarrow> (tr5, Inr ret)))))))"

subsection \<open>main\<close>

definition MAX_GAP :: int where
  "MAX_GAP = 30"

definition movie_name :: "nat \<Rightarrow> string" where
  "movie_name idx = ''movie_'' @ format_0d 3 idx"

text \<open>The loop over \<^verbatim>\<open>enumerate(grps)\<close>, from index \<open>idx\<close> on.\<close>

fun main_loop ::
  "world \<Rightarrow> string \<Rightarrow> nat \<Rightarrow> (int \<times> string) list list \<Rightarrow> event list
     \<Rightarrow> event list \<times> (exc + unit)" where
  "main_loop w cwd idx [] tr = (tr, Inr ())"
| "main_loop w cwd idx (grp # rest) tr =
     (let tr1 = print (''Group '' @ str_nat idx @ '', size '' @ str_nat (length grp)) tr;
          mname = movie_name idx
      in (case assemble_movie w cwd (map snd grp) mname tr1 of
            (tr2, Inl e) \<Rightarrow> (tr2, Inl e)
          | (tr2, Inr ret) \<Rightarrow>
              main_loop w cwd (Suc idx) rest (print (''rc = '' @ str_int ret) tr2)))"

text \<open>
  \<open>files\<close> is what \<^verbatim>\<open>get_files()\<close> returns: the names in the current
  directory that match the input pattern, each with its modification time.
\<close>

definition main :: "world \<Rightarrow> string \<Rightarrow> (int \<times> string) list \<Rightarrow> event list \<times> (exc + unit)" where
  "main w cwd files =
     (case group_by_mtime files MAX_GAP of
        Inl e \<Rightarrow> ([], Inl e)
      | Inr grps \<Rightarrow> main_loop w cwd 0 grps [])"

section \<open>Auxiliary notions for the statements\<close>

text \<open>
  \<open>retag f\<close> replaces what an item carries beside its time; the grouping looks at
  the times only.
\<close>

definition retag :: "('a \<Rightarrow> 'b) \<Rightarrow> int \<times> 'a \<Rightarrow> int \<times> 'b" where
  "retag f x = (fst x, f (snd x))"

definition brace_free :: "string \<Rightarrow> bool" where
  "brace_free s = (CHR ''{'' \<notin> set s \<and> CHR ''}'' \<notin> set s)"

text \<open>
  A world that answers by the name of the command alone: \<open>mk\<close> for
  \<^verbatim>\<open>mktemp\<close>, \<open>ln\<close> for \<^verbatim>\<open>ln\<close>, \<open>ls\<close> for \<^verbatim>\<open>ls\<close>,
  \<open>ff\<close> for \<^verbatim>\<open>ffmpeg\<close> and \<open>rm\<close> for anything else.
\<close>

definition world_of :: "proc \<Rightarrow> proc \<Rightarrow> proc \<Rightarrow> proc \<Rightarrow> proc \<Rightarrow> world" where
  "world_of mk ln ls ff rm tr argv =
     (if take 1 argv = [''mktemp''] then mk
      else if take 1 argv = [''ln''] then ln
      else if take 1 argv = [''ls''] then ls
      else if take 1 argv = [''ffmpeg''] then ff
      else rm)"

text \<open>An event that runs \<^verbatim>\<open>rm\<close>.\<close>

definition is_rm :: "event \<Rightarrow> bool" where
  "is_rm ev = (case ev of Run argv \<Rightarrow> take 1 argv = [''rm''] | Print m \<Rightarrow> False)"

text \<open>
  Reading a string of decimal digits, and what the specification calls a number
  zero-padded to a width: only digits, of the number's value, exactly as wide as the
  width, or wider when the number needs more digits and then without a leading zero.
\<close>

definition is_digit :: "char \<Rightarrow> bool" where
  "is_digit c = (c \<in> set ''0123456789'')"

definition digit_val :: "char \<Rightarrow> nat" where
  "digit_val c = of_char c - 48"

definition decimal_value :: "string \<Rightarrow> nat" where
  "decimal_value s = foldl (\<lambda>a c. 10 * a + digit_val c) 0 s"

definition zero_padded :: "nat \<Rightarrow> nat \<Rightarrow> string \<Rightarrow> bool" where
  "zero_padded w n s =
     (list_all is_digit s \<and> decimal_value s = n
      \<and> (length s = w \<or> (w < length s \<and> hd s \<noteq> CHR ''0'')))"

text \<open>An event that runs the command \<open>c\<close>.\<close>

definition is_cmd :: "string \<Rightarrow> event \<Rightarrow> bool" where
  "is_cmd c ev = (case ev of Run argv \<Rightarrow> take 1 argv = [c] | Print m \<Rightarrow> False)"

text \<open>
  The world \<open>w\<close>, but for the \<^verbatim>\<open>ln\<close> that is to make \<open>link\<close>, which is
  answered by \<open>p\<close>.
\<close>

definition world_ln_at :: "string \<Rightarrow> proc \<Rightarrow> world \<Rightarrow> world" where
  "world_ln_at link p w tr argv =
     (if take 1 argv = [''ln''] \<and> last argv = link then p else w tr argv)"

text \<open>
  The argument vectors of the runs of the command \<open>c\<close> in a list of events, in
  order.
\<close>

fun run_args :: "string \<Rightarrow> event list \<Rightarrow> string list list" where
  "run_args c [] = []"
| "run_args c (Print m # tr) = run_args c tr"
| "run_args c (Run argv # tr) =
     (if take 1 argv = [c] then argv # run_args c tr else run_args c tr)"

section \<open>Properties of the grouping\<close>

declare str_nat.simps [simp del]

subsection \<open>The loop never fails and keeps the items in order\<close>

lemma group_step_Inr:
  "nonempty_groups out \<Longrightarrow> \<exists>out'. group_step gap out x = Inr out' \<and> nonempty_groups out' \<and> concat out' = concat out @ [x]"
proof (cases "out = []")
  case True
  then show ?thesis by (simp add: group_step_def nonempty_groups_def)
next
  case False
  assume ne: "nonempty_groups out"
  from False have split: "out = butlast out @ [last out]" by simp
  from ne False have l: "last out \<noteq> []" by (simp add: nonempty_groups_def list_all_iff)
  from ne have nb: "nonempty_groups (butlast out)"
    by (auto simp: nonempty_groups_def list_all_iff dest: in_set_butlastD)
  have c: "concat out = concat (butlast out) @ last out"
    by (subst split) simp
  show ?thesis using False l ne nb c
    by (simp add: group_step_def Let_def nonempty_groups_def)
qed

lemma group_loop_Inr:
  "nonempty_groups out \<Longrightarrow> \<exists>out'. group_loop gap out xs = Inr out' \<and> nonempty_groups out' \<and> concat out' = concat out @ xs"
proof (induction xs arbitrary: out)
  case Nil
  then show ?case by simp
next
  case (Cons x xs)
  from group_step_Inr[OF Cons.prems, of gap x] obtain o1 where
    s: "group_step gap out x = Inr o1" and n: "nonempty_groups o1" and c: "concat o1 = concat out @ [x]"
    by blast
  from Cons.IH[OF n] obtain o2 where "group_loop gap o1 xs = Inr o2" "nonempty_groups o2" "concat o2 = concat o1 @ xs"
    by blast
  with s c show ?case by simp
qed

lemma group_step_within:
  assumes "nonempty_groups out" "list_all (within_gap gap) out" "group_step gap out x = Inr out'"
  shows "list_all (within_gap gap) out'"
proof (cases "out = []")
  case True
  with assms show ?thesis by (auto simp: group_step_def within_gap_def)
next
  case False
  then have split: "out = butlast out @ [last out]" by simp
  from assms(1) False have l: "last out \<noteq> []" by (simp add: nonempty_groups_def list_all_iff)
  from assms(2) have b: "list_all (within_gap gap) (butlast out)"
    by (auto simp: list_all_iff dest: in_set_butlastD)
  from assms(2) False have w: "within_gap gap (last out)" by (simp add: list_all_iff)
  show ?thesis using assms(3) False l b w assms(2)
    by (auto simp: group_step_def Let_def within_gap_def successively_append_iff split: if_splits)
qed

lemma group_step_across:
  assumes "nonempty_groups out" "across_gap gap out" "group_step gap out x = Inr out'"
  shows "across_gap gap out'"
proof (cases "out = []")
  case True
  with assms show ?thesis by (auto simp: group_step_def across_gap_def)
next
  case False
  then have split: "out = butlast out @ [last out]" by simp
  from assms(1) False have l: "last out \<noteq> []" by (simp add: nonempty_groups_def list_all_iff)
  from assms(2) have "across_gap gap (butlast out @ [last out])" using split by simp
  then have b: "successively (\<lambda>g h. gap \<le> compute_gap (fst (last g)) (fst (hd h))) (butlast out)"
    and j: "butlast out = [] \<or> gap \<le> compute_gap (fst (last (last (butlast out)))) (fst (hd (last out)))"
    by (auto simp: across_gap_def successively_append_iff)
  show ?thesis
  proof (cases "gap \<le> compute_gap (fst (last (last out))) (fst x)")
    case True
    with assms(3) False l have "out' = out @ [[x]]" by (simp add: group_step_def Let_def)
    with assms(2) True False show ?thesis by (simp add: across_gap_def successively_append_iff)
  next
    case F2: False
    with assms(3) False l have "out' = butlast out @ [last out @ [x]]" by (simp add: group_step_def Let_def)
    with b j l show ?thesis by (auto simp: across_gap_def successively_append_iff)
  qed
qed

lemma group_loop_within:
  "nonempty_groups out \<Longrightarrow> list_all (within_gap gap) out \<Longrightarrow> group_loop gap out xs = Inr out'
   \<Longrightarrow> list_all (within_gap gap) out'"
proof (induction xs arbitrary: out)
  case Nil
  then show ?case by simp
next
  case (Cons x xs)
  from group_step_Inr[OF Cons.prems(1), of gap x] obtain o1 where
    s: "group_step gap out x = Inr o1" and n: "nonempty_groups o1" by blast
  from group_step_within[OF Cons.prems(1,2) s] have w: "list_all (within_gap gap) o1" .
  from Cons.prems(3) s have "group_loop gap o1 xs = Inr out'" by simp
  from Cons.IH[OF n w this] show ?case .
qed

lemma group_loop_across:
  "nonempty_groups out \<Longrightarrow> across_gap gap out \<Longrightarrow> group_loop gap out xs = Inr out'
   \<Longrightarrow> across_gap gap out'"
proof (induction xs arbitrary: out)
  case Nil
  then show ?case by simp
next
  case (Cons x xs)
  from group_step_Inr[OF Cons.prems(1), of gap x] obtain o1 where
    s: "group_step gap out x = Inr o1" and n: "nonempty_groups o1" by blast
  from group_step_across[OF Cons.prems(1,2) s] have w: "across_gap gap o1" .
  from Cons.prems(3) s have "group_loop gap o1 xs = Inr out'" by simp
  from Cons.IH[OF n w this] show ?case .
qed

lemma group_by_mtime_Inr:
  "\<exists>gs. group_by_mtime alist gap = Inr gs \<and> nonempty_groups gs \<and> concat gs = sort_key fst alist"
  using group_loop_Inr[of "[]" gap "sort_key fst alist"]
  by (simp add: group_by_mtime_def nonempty_groups_def)

subsection \<open>C1: the groups partition the input\<close>

text \<open>
  C1. For every input list and every threshold, \<open>group_by_mtime\<close> returns (it raises
  nothing) and the groups, laid end to end, hold exactly the items of the input with
  their multiplicities: nothing is left out and nothing is added. When the input has
  no repeated pair, no pair occurs twice in the groups, so every pair lies in exactly
  one group.
\<close>

theorem group_by_mtime_partitions:
  "\<exists>gs. group_by_mtime alist gap = Inr gs
        \<and> mset (concat gs) = mset alist
        \<and> (distinct alist \<longrightarrow> distinct (concat gs))"
proof -
  from group_by_mtime_Inr[of alist gap] obtain gs where
    g: "group_by_mtime alist gap = Inr gs" and c: "concat gs = sort_key fst alist" by blast
  have m: "mset (concat gs) = mset alist" by (simp add: c)
  have "distinct alist \<Longrightarrow> distinct (concat gs)" by (simp add: c)
  with g m show ?thesis by blast
qed

theorem group_by_mtime_partitions_witness:
  "distinct [(102000000::int, ''e''), (0, ''a''), (500000, ''c''), (190000, ''b'')]
   \<and> (\<exists>gs. group_by_mtime [(102000000::int, ''e''), (0, ''a''), (500000, ''c''), (190000, ''b'')] 30
             = Inr gs
          \<and> mset (concat gs) = mset [(102000000::int, ''e''), (0, ''a''), (500000, ''c''), (190000, ''b'')]
          \<and> distinct (concat gs))"
  using group_by_mtime_partitions
    [of "[(102000000::int, ''e''), (0, ''a''), (500000, ''c''), (190000, ''b'')]" 30]
  by simp

subsection \<open>C2: gaps inside and between groups\<close>

text \<open>
  C2. For every input and threshold, in the output of \<open>group_by_mtime\<close> every two
  neighbours inside a group have a rounded gap strictly below the threshold, the gap
  from the last item of a group to the first item of the next group is at least the
  threshold, no group is empty, the timestamps of the groups laid end to end ascend
  (so the groups come in ascending time order), and every group is sorted ascending
  by timestamp.
\<close>

theorem group_by_mtime_gaps:
  "\<exists>gs. group_by_mtime alist gap = Inr gs
     \<and> list_all (within_gap gap) gs
     \<and> across_gap gap gs
     \<and> nonempty_groups gs
     \<and> sorted (map fst (concat gs))
     \<and> list_all (\<lambda>g. sorted (map fst g)) gs"
proof -
  from group_by_mtime_Inr[of alist gap] obtain gs where
    g: "group_by_mtime alist gap = Inr gs" and n: "nonempty_groups gs"
    and c: "concat gs = sort_key fst alist" by blast
  from g have l: "group_loop gap [] (sort_key fst alist) = Inr gs" by (simp add: group_by_mtime_def)
  have e: "nonempty_groups ([] :: (int \<times> 'a) list list)" by (simp add: nonempty_groups_def)
  have w: "list_all (within_gap gap) gs"
    using group_loop_within[OF e _ l] by simp
  have a: "across_gap gap gs"
    using group_loop_across[OF e _ l] by (simp add: across_gap_def)
  have s: "sorted (map fst (concat gs))" by (simp add: c)
  have "\<And>g. g \<in> set gs \<Longrightarrow> sorted (map fst g)"
  proof -
    fix g assume "g \<in> set gs"
    then obtain as bs where "gs = as @ g # bs" by (auto simp: in_set_conv_decomp)
    with s show "sorted (map fst g)" by (simp add: sorted_append)
  qed
  then have "list_all (\<lambda>g. sorted (map fst g)) gs" by (simp add: list_all_iff)
  with g w a n s show ?thesis by simp
qed

subsection \<open>C7: the empty list and a single item\<close>

text \<open>
  C7. \<open>group_by_mtime\<close> on the empty list returns the empty list of groups, with no
  error, and on a list of one item returns exactly one group holding that item.
\<close>

theorem group_by_mtime_empty_single:
  "group_by_mtime [] gap = Inr [] \<and> group_by_mtime [x] gap = Inr [[x]]"
  by (simp add: group_by_mtime_def group_step_def)

subsection \<open>C8: the order of the input\<close>

lemma fst_retag: "fst (retag f x) = fst x"
  by (simp add: retag_def)

lemma group_step_retag:
  "group_step gap (map (map (retag f)) out) (retag f x)
     = map_sum id (map (map (retag f))) (group_step gap out x)"
proof (cases "out = []")
  case True
  then show ?thesis by (simp add: group_step_def)
next
  case False
  show ?thesis
  proof (cases "last out = []")
    case True
    with False show ?thesis by (simp add: group_step_def Let_def last_map)
  next
    case l: False
    with False show ?thesis
      by (simp add: group_step_def Let_def last_map map_butlast fst_retag)
  qed
qed

lemma group_loop_retag:
  "group_loop gap (map (map (retag f)) out) (map (retag f) xs)
     = map_sum id (map (map (retag f))) (group_loop gap out xs)"
proof (induction xs arbitrary: out)
  case Nil
  then show ?case by simp
next
  case (Cons x xs)
  show ?case
  proof (cases "group_step gap out x")
    case (Inl e)
    then show ?thesis by (simp add: group_step_retag)
  next
    case (Inr o1)
    with Cons.IH[of o1] show ?thesis by (simp add: group_step_retag)
  qed
qed

lemma times_of_sort_key:
  "map fst (sort_key fst xs) = sort (map fst xs)"
  by (rule properties_for_sort[symmetric]) simp_all

lemma retag_unit_sort_key:
  assumes "mset xs = mset ys"
  shows "map (retag (\<lambda>_. ())) (sort_key fst xs) = map (retag (\<lambda>_. ())) (sort_key fst (ys :: (int \<times> 'a) list))"
proof -
  have r: "\<And>zs :: (int \<times> 'a) list. map (retag (\<lambda>_. ())) zs = map (\<lambda>t. (t, ())) (map fst zs)"
    by (simp add: retag_def)
  from assms have "mset (map fst xs) = mset (map fst ys)" by (metis mset_map)
  then have "sort (map fst xs) = sort (map fst ys)"
    by (metis properties_for_sort sorted_sort mset_sort)
  then show ?thesis by (simp only: r times_of_sort_key)
qed

lemma times_of_retag: "map (map fst) (map (map (retag f)) gs) = map (map fst) gs"
  by (simp add: fst_retag comp_def)

text \<open>
  C8. When two input lists are permutations of each other, \<open>group_by_mtime\<close>
  returns for both the same number of groups, of the same sizes, with the same
  timestamps at the same places, and the same items overall: the two results differ
  at most in the order of items that carry equal timestamps. When no two items of the
  input carry the same timestamp, the two results are equal.
\<close>

theorem group_by_mtime_order_independent:
  assumes "mset xs = mset ys"
  shows "\<exists>gs hs. group_by_mtime xs gap = Inr gs \<and> group_by_mtime ys gap = Inr hs
           \<and> map (map fst) gs = map (map fst) hs
           \<and> mset (concat gs) = mset (concat hs)
           \<and> (distinct (map fst xs) \<longrightarrow> gs = hs)"
proof -
  from group_by_mtime_Inr[of xs gap] obtain gs where
    g: "group_by_mtime xs gap = Inr gs" and cg: "concat gs = sort_key fst xs" by blast
  from group_by_mtime_Inr[of ys gap] obtain hs where
    h: "group_by_mtime ys gap = Inr hs" and ch: "concat hs = sort_key fst ys" by blast
  let ?u = "retag (\<lambda>_. ())"
  have "map_sum id (map (map ?u)) (group_by_mtime xs gap)
          = map_sum id (map (map ?u)) (group_by_mtime ys gap)"
    unfolding group_by_mtime_def
    using group_loop_retag[of gap "\<lambda>_. ()" "[]" "sort_key fst xs"]
          group_loop_retag[of gap "\<lambda>_. ()" "[]" "sort_key fst ys"]
          retag_unit_sort_key[OF assms]
    by simp
  with g h have "map (map ?u) gs = map (map ?u) hs" by simp
  then have "map (map fst) (map (map ?u) gs) = map (map fst) (map (map ?u) hs)" by simp
  then have t: "map (map fst) gs = map (map fst) hs" by (simp only: times_of_retag)
  have m: "mset (concat gs) = mset (concat hs)" using assms by (simp add: cg ch)
  have "gs = hs" if d: "distinct (map fst xs)"
  proof -
    from d have "inj_on fst (set xs)" by (simp add: distinct_map)
    with assms have "sort_key fst xs = sort_key fst ys" by (rule sort_key_eq_sort_key)
    with g h show ?thesis by (simp add: group_by_mtime_def)
  qed
  with g h t m show ?thesis by blast
qed

theorem group_by_mtime_order_independent_witness:
  "mset [(102000000::int, ''e''), (0, ''a''), (500000, ''c'')] = mset [(0, ''a''), (500000, ''c''), (102000000, ''e'')]
   \<and> distinct (map fst [(102000000::int, ''e''), (0, ''a''), (500000, ''c'')])
   \<and> group_by_mtime [(102000000::int, ''e''), (0, ''a''), (500000, ''c'')] 30
       = group_by_mtime [(0, ''a''), (500000, ''c''), (102000000, ''e'')] 30"
proof -
  have m: "mset [(102000000::int, ''e''), (0, ''a''), (500000, ''c'')] = mset [(0, ''a''), (500000, ''c''), (102000000, ''e'')]"
    by simp
  have d: "distinct (map fst [(102000000::int, ''e''), (0, ''a''), (500000, ''c'')])" by simp
  from group_by_mtime_order_independent[OF m, of 30] d m show ?thesis by auto
qed

section \<open>Properties of the assembly\<close>

subsection \<open>The image filter\<close>

lemma last3_jpg: "(last3 x = ''jpg'') = suffix ''jpg'' x"
proof
  assume "last3 x = ''jpg''"
  then have "x = take (length x - 3) x @ ''jpg''"
    by (metis append_take_drop_id last3_def)
  then show "suffix ''jpg'' x" by (metis suffixI)
next
  assume "suffix ''jpg'' x"
  then obtain p where "x = p @ ''jpg''" by (auto simp: suffix_def)
  then show "last3 x = ''jpg''" by (simp add: last3_def)
qed

lemma in_files_of_filter: "in_files_of fpaths = filter (\<lambda>f. last3 f = ''jpg'') fpaths"
  by (induction fpaths) (simp_all add: in_files_of_def last3_def)

lemma in_files_of_suffix: "in_files_of fpaths = filter (suffix ''jpg'') fpaths"
  by (simp add: in_files_of_filter last3_jpg)

subsection \<open>C6: a group without images\<close>

text \<open>
  C6. When no path of the input ends in the three characters \<open>jpg\<close>,
  \<open>assemble_movie\<close> returns 1 at once: the only event it adds is the message that
  the group holds no images, so no directory is made, no link is created and the
  encoder is not run.
\<close>

theorem assemble_movie_no_images:
  assumes "\<forall>f \<in> set fpaths. last3 f \<noteq> ''jpg''"
  shows "assemble_movie w cwd fpaths name tr
           = (tr @ [Print ''Abort: no jpg files found in group!''], Inr 1)"
proof -
  from assms have "in_files_of fpaths = []"
    by (simp add: in_files_of_filter filter_empty_conv)
  then show ?thesis by (simp add: assemble_movie_def print_def)
qed

theorem assemble_movie_no_images_witness:
  "last3 ''notes.txt'' \<noteq> ''jpg'' \<and> last3 ''a.png'' \<noteq> ''jpg''
   \<and> assemble_movie (world_of NotStarted NotStarted NotStarted NotStarted NotStarted)
        ''/home/u'' [''notes.txt'', ''a.png''] ''movie_000'' []
       = ([Print ''Abort: no jpg files found in group!''], Inr 1)"
proof -
  have h: "\<forall>f \<in> set [''notes.txt'', ''a.png'']. last3 f \<noteq> ''jpg''"
    by (simp add: last3_def)
  from assemble_movie_no_images[OF h] h show ?thesis by simp
qed

subsection \<open>What the external commands leave in the list of events\<close>

lemma subprocess_call_Exited:
  "w tr argv = Exited rc out \<Longrightarrow> subprocess_call w argv tr = (tr @ [Run argv], Inr rc)"
  by (simp add: subprocess_call_def)

lemma subprocess_call_NotStarted:
  "w tr argv = NotStarted \<Longrightarrow> subprocess_call w argv tr = (tr @ [Run argv], Inl OSError)"
  by (simp add: subprocess_call_def)

lemma subprocess_call_cases:
  "subprocess_call w argv tr = (tr @ [Run argv], Inl OSError)
   \<or> (\<exists>rc. subprocess_call w argv tr = (tr @ [Run argv], Inr rc))"
  by (cases "w tr argv") (simp_all add: subprocess_call_def)

lemma check_output_ok:
  "w tr argv = Exited 0 out \<Longrightarrow> check_output w argv tr = (tr @ [Run argv], Inr out)"
  by (simp add: check_output_def)

lemma check_output_fail:
  "w tr argv = Exited rc out \<Longrightarrow> rc \<noteq> 0
   \<Longrightarrow> check_output w argv tr = (tr @ [Run argv], Inl (CalledProcessError rc))"
  by (simp add: check_output_def)

lemma check_output_NotStarted:
  "w tr argv = NotStarted \<Longrightarrow> check_output w argv tr = (tr @ [Run argv], Inl OSError)"
  by (simp add: check_output_def)

lemma check_output_fst: "fst (check_output w argv tr) = tr @ [Run argv]"
  by (simp add: check_output_def)

lemma make_links_step:
  "make_links w tmp idx (fpath # rest) tr =
     (case link_path tmp idx of
        Inl e \<Rightarrow> (tr, Inl e)
      | Inr link \<Rightarrow>
          (case w tr [''ln'', ''-s'', fpath, link] of
             NotStarted \<Rightarrow> (tr @ [Run [''ln'', ''-s'', fpath, link]], Inl OSError)
           | Exited rc out \<Rightarrow>
               make_links w tmp (Suc idx) rest (tr @ [Run [''ln'', ''-s'', fpath, link]])))"
  by (simp add: subprocess_call_def split: sum.splits proc.splits)

lemma make_links_events:
  "\<exists>new. fst (make_links w tmp idx fpaths tr) = tr @ new \<and> \<not> list_ex is_rm new"
proof (induction fpaths arbitrary: idx tr)
  case Nil
  show ?case by simp
next
  case (Cons f rest)
  show ?case
  proof (cases "link_path tmp idx")
    case (Inl e)
    then show ?thesis by (simp add: make_links_step del: make_links.simps)
  next
    case (Inr link)
    show ?thesis
    proof (cases "w tr [''ln'', ''-s'', f, link]")
      case NotStarted
      with Inr show ?thesis by (simp add: make_links_step is_rm_def del: make_links.simps)
    next
      case (Exited rc out)
      from Cons.IH[of "Suc idx" "tr @ [Run [''ln'', ''-s'', f, link]]"] obtain new where
        n: "fst (make_links w tmp (Suc idx) rest (tr @ [Run [''ln'', ''-s'', f, link]]))
              = (tr @ [Run [''ln'', ''-s'', f, link]]) @ new" and r: "\<not> list_ex is_rm new"
        by blast
      have "fst (make_links w tmp idx (f # rest) tr) = tr @ (Run [''ln'', ''-s'', f, link] # new)"
        using Inr Exited n by (simp add: make_links_step del: make_links.simps)
      moreover have "\<not> list_ex is_rm (Run [''ln'', ''-s'', f, link] # new)"
        using r by (simp add: is_rm_def)
      ultimately show ?thesis by blast
    qed
  qed
qed

lemma mkdir_cmd_eq: "mkdir_cmd = [''mktemp'', ''-d'', ''-p'', ''/tmp'', ''make_movie.XXXXXX'']"
  by (simp add: mkdir_cmd_def py_split_def is_space_def)

lemma sequential_links_enter_cases:
  "sequential_links_enter w fpaths tr =
    (case w tr mkdir_cmd of
       NotStarted \<Rightarrow> (tr @ [Run mkdir_cmd], Inl OSError)
     | Exited rc out \<Rightarrow>
         if rc \<noteq> 0
         then (tr @ [Run mkdir_cmd,
                     Print (''ERROR: failed to create tmp dir. (rc = '' @ str_int rc @ '')'')],
               Inl (SystemExit 1))
         else
           (case make_links w (py_strip out) 0 fpaths
                   (tr @ [Run mkdir_cmd, Print (''Made tmp dir '' @ py_strip out)]) of
              (tr3, Inl e) \<Rightarrow> (tr3, Inl e)
            | (tr3, Inr u) \<Rightarrow>
                (case w tr3 [''ls'', ''-l'', py_strip out] of
                   NotStarted \<Rightarrow> (tr3 @ [Run [''ls'', ''-l'', py_strip out]], Inl OSError)
                 | Exited rc2 listing \<Rightarrow>
                     if rc2 \<noteq> 0
                     then (tr3 @ [Run [''ls'', ''-l'', py_strip out]], Inl (CalledProcessError rc2))
                     else (tr3 @ [Run [''ls'', ''-l'', py_strip out], Print listing],
                           Inr (py_strip out)))))"
  by (simp add: sequential_links_enter_def check_output_def print_def Let_def
           split: proc.splits prod.splits sum.splits)

lemma sequential_links_enter_events:
  "\<exists>new. fst (sequential_links_enter w fpaths tr) = tr @ new \<and> \<not> list_ex is_rm new"
proof (cases "w tr mkdir_cmd")
  case NotStarted
  then show ?thesis by (simp add: sequential_links_enter_cases is_rm_def mkdir_cmd_eq)
next
  case (Exited rc out)
  show ?thesis
  proof (cases "rc = 0")
    case False
    with Exited show ?thesis by (simp add: sequential_links_enter_cases is_rm_def mkdir_cmd_eq)
  next
    case True
    let ?tmp = "py_strip out"
    let ?tr2 = "tr @ [Run mkdir_cmd, Print (''Made tmp dir '' @ ?tmp)]"
    obtain tr3 r where m: "make_links w ?tmp 0 fpaths ?tr2 = (tr3, r)" by (cases "make_links w ?tmp 0 fpaths ?tr2")
    from make_links_events[of w ?tmp 0 fpaths ?tr2] m obtain new where
      n: "tr3 = ?tr2 @ new" and nr: "\<not> list_ex is_rm new" by auto
    have pre: "\<not> list_ex is_rm ([Run mkdir_cmd, Print (''Made tmp dir '' @ ?tmp)] @ new)"
      using nr by (simp add: is_rm_def mkdir_cmd_eq)
    have t3: "tr3 = tr @ ([Run mkdir_cmd, Print (''Made tmp dir '' @ ?tmp)] @ new)"
      using n by simp
    show ?thesis
    proof (cases r)
      case (Inl e)
      with Exited True m have "fst (sequential_links_enter w fpaths tr) = tr3"
        by (simp add: sequential_links_enter_cases)
      with t3 pre show ?thesis by blast
    next
      case (Inr u)
      show ?thesis
      proof (cases "w tr3 [''ls'', ''-l'', ?tmp]")
        case NotStarted
        with Exited True m Inr have
          "fst (sequential_links_enter w fpaths tr) = tr @ (([Run mkdir_cmd, Print (''Made tmp dir '' @ ?tmp)] @ new) @ [Run [''ls'', ''-l'', ?tmp]])"
          by (simp add: sequential_links_enter_cases t3)
        moreover have "\<not> list_ex is_rm (([Run mkdir_cmd, Print (''Made tmp dir '' @ ?tmp)] @ new) @ [Run [''ls'', ''-l'', ?tmp]])"
          using pre by (simp add: is_rm_def)
        ultimately show ?thesis by blast
      next
        case E2: (Exited rc2 listing)
        with Exited True m Inr have
          "fst (sequential_links_enter w fpaths tr) = tr @ (([Run mkdir_cmd, Print (''Made tmp dir '' @ ?tmp)] @ new) @ (if rc2 \<noteq> 0 then [Run [''ls'', ''-l'', ?tmp]] else [Run [''ls'', ''-l'', ?tmp], Print listing]))"
          by (simp add: sequential_links_enter_cases t3)
        moreover have "\<not> list_ex is_rm (([Run mkdir_cmd, Print (''Made tmp dir '' @ ?tmp)] @ new) @ (if rc2 \<noteq> 0 then [Run [''ls'', ''-l'', ?tmp]] else [Run [''ls'', ''-l'', ?tmp], Print listing]))"
          using pre by (simp add: is_rm_def)
        ultimately show ?thesis by blast
      qed
    qed
  qed
qed

lemma sequential_links_enter_Inr:
  "sequential_links_enter w fpaths tr = (tr1, Inr tmp)
   \<Longrightarrow> \<exists>out. w tr mkdir_cmd = Exited 0 out \<and> tmp = py_strip out"
  by (auto simp: sequential_links_enter_cases split: proc.splits if_splits prod.splits sum.splits)

lemma assemble_movie_cases:
  assumes "in_files_of fpaths \<noteq> []"
  shows "assemble_movie w cwd fpaths name tr =
     (case sequential_links_enter w (map (\<lambda>f. cwd @ ''/'' @ f) (in_files_of fpaths)) tr of
        (tr1, Inl e) \<Rightarrow> (tr1, Inl e)
      | (tr1, Inr tmp) \<Rightarrow>
          (case w (tr1 @ [Print (''Assembling movie '' @ name @ ''.mp4 ...''),
                          Print (''Running: '' @ ffmpeg_args tmp name)])
                  (py_split (ffmpeg_args tmp name)) of
             NotStarted \<Rightarrow>
               (tr1 @ [Print (''Assembling movie '' @ name @ ''.mp4 ...''),
                       Print (''Running: '' @ ffmpeg_args tmp name),
                       Run (py_split (ffmpeg_args tmp name))], Inl OSError)
           | Exited rc out \<Rightarrow>
               (tr1 @ [Print (''Assembling movie '' @ name @ ''.mp4 ...''),
                       Print (''Running: '' @ ffmpeg_args tmp name),
                       Run (py_split (ffmpeg_args tmp name)),
                       Print ''Cleaning up tmp dir'',
                       Run [''rm'', ''-rf'', tmp]],
                case w (tr1 @ [Print (''Assembling movie '' @ name @ ''.mp4 ...''),
                               Print (''Running: '' @ ffmpeg_args tmp name),
                               Run (py_split (ffmpeg_args tmp name)),
                               Print ''Cleaning up tmp dir''])
                       [''rm'', ''-rf'', tmp] of
                  NotStarted \<Rightarrow> Inl OSError
                | Exited rc2 out2 \<Rightarrow> Inr rc)))"
  using assms
  by (simp add: assemble_movie_def sequential_links_exit_def subprocess_call_def print_def Let_def
           split: proc.splits prod.splits sum.splits)

subsection \<open>C3: removal of the staging directory\<close>

text \<open>
  C3, as stated, fails: the directory is made, \<^verbatim>\<open>ln\<close> cannot be started,
  the \<open>OSError\<close> leaves \<open>assemble_movie\<close> before the encoder is run, and no
  \<^verbatim>\<open>rm\<close> is run: the staging directory stays.
\<close>

theorem assemble_movie_link_error_keeps_dir:
  "assemble_movie
     (world_of (Exited 0 (''/tmp/make_movie.abc123'' @ [CHR 0x0A])) NotStarted
        (Exited 0 []) (Exited 0 []) (Exited 0 []))
     ''/home/u'' [''a.jpg''] ''movie_000'' []
   = ([Run [''mktemp'', ''-d'', ''-p'', ''/tmp'', ''make_movie.XXXXXX''],
       Print ''Made tmp dir /tmp/make_movie.abc123'',
       Run [''ln'', ''-s'', ''/home/u/a.jpg'', ''/tmp/make_movie.abc123/000000.jpg'']],
      Inl OSError)"
  by code_simp

text \<open>
  C3, amended. Let a group hold at least one image. When the staging
  (\<open>sequential_links_enter\<close>) ends with an exception or with \<open>SystemExit\<close>, that
  leaves \<open>assemble_movie\<close> at once and no \<^verbatim>\<open>rm\<close> is run in this
  invocation, whether or not the directory had been made. When the staging succeeds,
  the directory is the one \<^verbatim>\<open>mktemp\<close> printed; if the encoder cannot be
  started, the \<open>OSError\<close> leaves \<open>assemble_movie\<close> right after the attempt, again
  without removal; if the encoder exits, with status zero or not, the events that
  follow it are the cleanup message and \<^verbatim>\<open>rm -rf\<close> of that directory, and
  the result is the encoder's status (or \<open>OSError\<close> when \<^verbatim>\<open>rm\<close> itself
  cannot be started).
\<close>

theorem assemble_movie_cleanup:
  assumes "in_files_of fpaths \<noteq> []"
    and "sequential_links_enter w (map (\<lambda>f. cwd @ ''/'' @ f) (in_files_of fpaths)) tr = (tr1, s)"
  shows "case s of
           Inl e \<Rightarrow>
             assemble_movie w cwd fpaths name tr = (tr1, Inl e)
             \<and> \<not> list_ex is_rm (drop (length tr) tr1)
         | Inr tmp \<Rightarrow>
             (\<exists>out. w tr mkdir_cmd = Exited 0 out \<and> tmp = py_strip out)
             \<and> (case w (tr1 @ [Print (''Assembling movie '' @ name @ ''.mp4 ...''),
                               Print (''Running: '' @ ffmpeg_args tmp name)])
                       (py_split (ffmpeg_args tmp name)) of
                  NotStarted \<Rightarrow>
                    assemble_movie w cwd fpaths name tr
                      = (tr1 @ [Print (''Assembling movie '' @ name @ ''.mp4 ...''),
                                Print (''Running: '' @ ffmpeg_args tmp name),
                                Run (py_split (ffmpeg_args tmp name))], Inl OSError)
                | Exited rc out \<Rightarrow>
                    fst (assemble_movie w cwd fpaths name tr)
                      = tr1 @ [Print (''Assembling movie '' @ name @ ''.mp4 ...''),
                               Print (''Running: '' @ ffmpeg_args tmp name),
                               Run (py_split (ffmpeg_args tmp name)),
                               Print ''Cleaning up tmp dir'',
                               Run [''rm'', ''-rf'', tmp]]
                    \<and> snd (assemble_movie w cwd fpaths name tr) \<in> {Inr rc, Inl OSError})"
proof (cases s)
  case (Inl e)
  from sequential_links_enter_events[of w "map (\<lambda>f. cwd @ ''/'' @ f) (in_files_of fpaths)" tr]
    assms(2) obtain new where "tr1 = tr @ new" "\<not> list_ex is_rm new" by auto
  then have "\<not> list_ex is_rm (drop (length tr) tr1)" by simp
  with Inl assms show ?thesis by (simp add: assemble_movie_cases)
next
  case (Inr tmp)
  from sequential_links_enter_Inr[of w _ tr tr1 tmp] assms(2) Inr
  have "\<exists>out. w tr mkdir_cmd = Exited 0 out \<and> tmp = py_strip out" by simp
  with Inr assms show ?thesis
    by (simp add: assemble_movie_cases split: proc.splits)
qed

theorem assemble_movie_cleanup_witness:
  "in_files_of [''a.jpg''] \<noteq> []
   \<and> fst (assemble_movie
        (world_of (Exited 0 (''/tmp/make_movie.abc123'' @ [CHR 0x0A])) (Exited 0 [])
           (Exited 0 ''total 0'') (Exited 3 []) (Exited 0 []))
        ''/home/u'' [''a.jpg''] ''movie_000'' [])
     = [Run [''mktemp'', ''-d'', ''-p'', ''/tmp'', ''make_movie.XXXXXX''],
        Print ''Made tmp dir /tmp/make_movie.abc123'',
        Run [''ln'', ''-s'', ''/home/u/a.jpg'', ''/tmp/make_movie.abc123/000000.jpg''],
        Run [''ls'', ''-l'', ''/tmp/make_movie.abc123''],
        Print ''total 0'',
        Print ''Assembling movie movie_000.mp4 ...'',
        Print (''Running: '' @ ffmpeg_args ''/tmp/make_movie.abc123'' ''movie_000''),
        Run (py_split (ffmpeg_args ''/tmp/make_movie.abc123'' ''movie_000'')),
        Print ''Cleaning up tmp dir'',
        Run [''rm'', ''-rf'', ''/tmp/make_movie.abc123'']]
   \<and> snd (assemble_movie
        (world_of (Exited 0 (''/tmp/make_movie.abc123'' @ [CHR 0x0A])) (Exited 0 [])
           (Exited 0 ''total 0'') (Exited 3 []) (Exited 0 []))
        ''/home/u'' [''a.jpg''] ''movie_000'' []) \<in> {Inr 3, Inl OSError}"
proof -
  let ?w = "world_of (Exited 0 (''/tmp/make_movie.abc123'' @ [CHR 0x0A])) (Exited 0 [])
           (Exited 0 ''total 0'') (Exited 3 []) (Exited 0 [])"
  let ?tr1 = "[Run [''mktemp'', ''-d'', ''-p'', ''/tmp'', ''make_movie.XXXXXX''],
        Print ''Made tmp dir /tmp/make_movie.abc123'',
        Run [''ln'', ''-s'', ''/home/u/a.jpg'', ''/tmp/make_movie.abc123/000000.jpg''],
        Run [''ls'', ''-l'', ''/tmp/make_movie.abc123''],
        Print ''total 0'']"
  have h1: "in_files_of [''a.jpg''] \<noteq> []" by code_simp
  have h2: "sequential_links_enter ?w (map (\<lambda>f. ''/home/u'' @ ''/'' @ f) (in_files_of [''a.jpg''])) []
              = (?tr1, Inr ''/tmp/make_movie.abc123'')"
    by code_simp
  have h3: "?w (?tr1 @ [Print (''Assembling movie '' @ ''movie_000'' @ ''.mp4 ...''),
                        Print (''Running: '' @ ffmpeg_args ''/tmp/make_movie.abc123'' ''movie_000'')])
               (py_split (ffmpeg_args ''/tmp/make_movie.abc123'' ''movie_000'')) = Exited 3 []"
    by code_simp
  from assemble_movie_cleanup[OF h1 h2, of "''movie_000''"] h1 h3 show ?thesis
    by simp
qed

subsection \<open>C4: a link that cannot be created\<close>

lemma make_links_only_ln:
  "\<exists>new. fst (make_links w tmp idx fpaths tr) = tr @ new \<and> list_all (is_cmd ''ln'') new"
proof (induction fpaths arbitrary: idx tr)
  case Nil
  show ?case by simp
next
  case (Cons f rest)
  show ?case
  proof (cases "link_path tmp idx")
    case (Inl e)
    then show ?thesis by (simp add: make_links_step del: make_links.simps)
  next
    case (Inr link)
    let ?ev = "Run [''ln'', ''-s'', f, link]"
    show ?thesis
    proof (cases "w tr [''ln'', ''-s'', f, link]")
      case NotStarted
      with Inr show ?thesis by (simp add: make_links_step is_cmd_def del: make_links.simps)
    next
      case (Exited rc out)
      from Cons.IH[of "Suc idx" "tr @ [?ev]"] obtain new where
        n: "fst (make_links w tmp (Suc idx) rest (tr @ [?ev])) = (tr @ [?ev]) @ new"
        and r: "list_all (is_cmd ''ln'') new"
        by blast
      have "fst (make_links w tmp idx (f # rest) tr) = tr @ (?ev # new)"
        using Inr Exited n by (simp add: make_links_step del: make_links.simps)
      moreover have "list_all (is_cmd ''ln'') (?ev # new)"
        using r by (simp add: is_cmd_def)
      ultimately show ?thesis by blast
    qed
  qed
qed

text \<open>
  C4, as stated, fails: the first link is made, the second \<^verbatim>\<open>ln\<close> cannot
  be started. The \<open>OSError\<close> does abort the assembly before the encoder is run,
  but the code prints no error for it, and no \<^verbatim>\<open>rm\<close> is run: the link
  already made and the staging directory stay.
\<close>

theorem assemble_movie_second_link_error:
  "assemble_movie
     (world_ln_at ''/tmp/make_movie.abc123/000001.jpg'' NotStarted
        (world_of (Exited 0 (''/tmp/make_movie.abc123'' @ [CHR 0x0A])) (Exited 0 [])
           (Exited 0 []) (Exited 0 []) (Exited 0 [])))
     ''/home/u'' [''a.jpg'', ''b.jpg''] ''movie_000'' []
   = ([Run [''mktemp'', ''-d'', ''-p'', ''/tmp'', ''make_movie.XXXXXX''],
       Print ''Made tmp dir /tmp/make_movie.abc123'',
       Run [''ln'', ''-s'', ''/home/u/a.jpg'', ''/tmp/make_movie.abc123/000000.jpg''],
       Run [''ln'', ''-s'', ''/home/u/b.jpg'', ''/tmp/make_movie.abc123/000001.jpg'']],
      Inl OSError)"
  by code_simp

text \<open>
  C4, amended. When the directory has been made and the loop that creates the links
  is left by an error, \<open>assemble_movie\<close> is left by the same error at once: the
  events of the invocation are the \<^verbatim>\<open>mktemp\<close>, its message and the
  \<^verbatim>\<open>ln\<close> runs up to the failing one. The encoder is not run, and neither
  the links already made nor the staging directory are removed.
\<close>

theorem assemble_movie_link_error:
  assumes "in_files_of fpaths \<noteq> []"
    and "w tr mkdir_cmd = Exited 0 out"
    and "make_links w (py_strip out) 0 (map (\<lambda>f. cwd @ ''/'' @ f) (in_files_of fpaths))
           (tr @ [Run mkdir_cmd, Print (''Made tmp dir '' @ py_strip out)]) = (tr3, Inl e)"
  shows "assemble_movie w cwd fpaths name tr = (tr3, Inl e)
         \<and> (\<exists>links. tr3 = tr @ [Run mkdir_cmd, Print (''Made tmp dir '' @ py_strip out)] @ links
                     \<and> list_all (is_cmd ''ln'') links)"
proof -
  from assms(2,3) have
    "sequential_links_enter w (map (\<lambda>f. cwd @ ''/'' @ f) (in_files_of fpaths)) tr = (tr3, Inl e)"
    by (simp add: sequential_links_enter_cases)
  with assms(1) have a: "assemble_movie w cwd fpaths name tr = (tr3, Inl e)"
    by (simp add: assemble_movie_cases)
  from make_links_only_ln[of w "py_strip out" 0 "map (\<lambda>f. cwd @ ''/'' @ f) (in_files_of fpaths)"
      "tr @ [Run mkdir_cmd, Print (''Made tmp dir '' @ py_strip out)]"] assms(3)
  obtain links where
    "tr3 = (tr @ [Run mkdir_cmd, Print (''Made tmp dir '' @ py_strip out)]) @ links"
    and "list_all (is_cmd ''ln'') links" by auto
  with a show ?thesis by auto
qed

theorem assemble_movie_link_error_witness:
  "in_files_of [''a.jpg'', ''b.jpg''] \<noteq> []
   \<and> assemble_movie
     (world_ln_at ''/tmp/make_movie.abc123/000000.jpg'' NotStarted
        (world_of (Exited 0 (''/tmp/make_movie.abc123'' @ [CHR 0x0A])) (Exited 0 [])
           (Exited 0 []) (Exited 0 []) (Exited 0 [])))
     ''/home/u'' [''a.jpg'', ''b.jpg''] ''movie_001'' [Print ''Group 1, size 2'']
   = ([Print ''Group 1, size 2'',
       Run [''mktemp'', ''-d'', ''-p'', ''/tmp'', ''make_movie.XXXXXX''],
       Print ''Made tmp dir /tmp/make_movie.abc123'',
       Run [''ln'', ''-s'', ''/home/u/a.jpg'', ''/tmp/make_movie.abc123/000000.jpg'']],
      Inl OSError)"
proof -
  let ?w = "world_ln_at ''/tmp/make_movie.abc123/000000.jpg'' NotStarted
        (world_of (Exited 0 (''/tmp/make_movie.abc123'' @ [CHR 0x0A])) (Exited 0 [])
           (Exited 0 []) (Exited 0 []) (Exited 0 []))"
  let ?tr = "[Print ''Group 1, size 2'']"
  have h1: "in_files_of [''a.jpg'', ''b.jpg''] \<noteq> []" by code_simp
  have h2: "?w ?tr mkdir_cmd = Exited 0 (''/tmp/make_movie.abc123'' @ [CHR 0x0A])" by code_simp
  have h3: "make_links ?w (py_strip (''/tmp/make_movie.abc123'' @ [CHR 0x0A])) 0
              (map (\<lambda>f. ''/home/u'' @ ''/'' @ f) (in_files_of [''a.jpg'', ''b.jpg'']))
              (?tr @ [Run mkdir_cmd,
                      Print (''Made tmp dir '' @ py_strip (''/tmp/make_movie.abc123'' @ [CHR 0x0A]))])
            = ([Print ''Group 1, size 2'',
                Run [''mktemp'', ''-d'', ''-p'', ''/tmp'', ''make_movie.XXXXXX''],
                Print ''Made tmp dir /tmp/make_movie.abc123'',
                Run [''ln'', ''-s'', ''/home/u/a.jpg'', ''/tmp/make_movie.abc123/000000.jpg'']],
               Inl OSError)"
    by code_simp
  from assemble_movie_link_error[of "[''a.jpg'', ''b.jpg'']" ?w ?tr _ "''/home/u''" _ OSError
      "''movie_001''", OF h1 h2 h3, THEN conjunct1] h1
  show ?thesis by (rule conjI[rotated])
qed

text \<open>
  The amended statement is about a link whose creation raises. A \<^verbatim>\<open>ln\<close>
  that runs and exits with a nonzero status raises nothing:
  \<open>subprocess_call\<close> never raises \<open>CalledProcessError\<close>, so the handler that
  the loop of \<open>sequential_links\<close> has for it, with its message and its
  \<open>sys.exit(1)\<close>, is never entered. With every \<^verbatim>\<open>ln\<close> exiting with
  status 1 the assembly goes on to the encoder and returns its status.
\<close>

lemma subprocess_call_never_CalledProcessError:
  "snd (subprocess_call w argv tr) \<noteq> Inl (CalledProcessError rc)"
  by (simp add: subprocess_call_def split: proc.splits)

lemma assemble_movie_ignores_ln_status:
  "assemble_movie
     (world_of (Exited 0 (''/tmp/make_movie.abc123'' @ [CHR 0x0A])) (Exited 1 [])
        (Exited 0 ''total 0'') (Exited 0 []) (Exited 0 []))
     ''/home/u'' [''a.jpg'', ''b.jpg''] ''movie_000'' []
   = ([Run [''mktemp'', ''-d'', ''-p'', ''/tmp'', ''make_movie.XXXXXX''],
       Print ''Made tmp dir /tmp/make_movie.abc123'',
       Run [''ln'', ''-s'', ''/home/u/a.jpg'', ''/tmp/make_movie.abc123/000000.jpg''],
       Run [''ln'', ''-s'', ''/home/u/b.jpg'', ''/tmp/make_movie.abc123/000001.jpg''],
       Run [''ls'', ''-l'', ''/tmp/make_movie.abc123''],
       Print ''total 0'',
       Print ''Assembling movie movie_000.mp4 ...'',
       Print ''Running: ffmpeg -f image2 -i /tmp/make_movie.abc123/%06d.jpg -r 4 movie_000.mp4'',
       Run [''ffmpeg'', ''-f'', ''image2'', ''-i'', ''/tmp/make_movie.abc123/%06d.jpg'', ''-r'', ''4'',
            ''movie_000.mp4''],
       Print ''Cleaning up tmp dir'',
       Run [''rm'', ''-rf'', ''/tmp/make_movie.abc123'']],
      Inr 0)"
  by code_simp

subsection \<open>Decimal texts, words of a command line, and the links made\<close>

lemma below_ten: "(n::nat) < 10 \<Longrightarrow> n \<in> {0, 1, 2, 3, 4, 5, 6, 7, 8, 9}"
  by auto

lemma digit_char:
  assumes "(n::nat) < 10"
  shows "is_digit (''0123456789'' ! n)" and "digit_val (''0123456789'' ! n) = n"
    and "0 < n \<Longrightarrow> ''0123456789'' ! n \<noteq> CHR ''0''"
  using below_ten[OF assms] by (auto simp: is_digit_def digit_val_def)

lemma str_nat_digits: "list_all is_digit (str_nat n)"
proof (induction n rule: str_nat.induct)
  case (1 n)
  show ?case
  proof (cases "n < 10")
    case True
    then show ?thesis by (subst str_nat.simps) (simp add: digit_char)
  next
    case False
    with 1 have "list_all is_digit (str_nat (n div 10))" by simp
    moreover have "is_digit (''0123456789'' ! (n mod 10))" by (simp add: digit_char)
    ultimately show ?thesis using False by (subst str_nat.simps) simp
  qed
qed

lemma decimal_value_snoc: "decimal_value (s @ [c]) = 10 * decimal_value s + digit_val c"
  by (simp add: decimal_value_def)

lemma decimal_value_str_nat: "decimal_value (str_nat n) = n"
proof (induction n rule: str_nat.induct)
  case (1 n)
  show ?case
  proof (cases "n < 10")
    case True
    then show ?thesis
      by (subst str_nat.simps) (simp add: digit_char decimal_value_def)
  next
    case False
    with 1 have "decimal_value (str_nat (n div 10)) = n div 10" by simp
    moreover have "digit_val (''0123456789'' ! (n mod 10)) = n mod 10" by (simp add: digit_char)
    ultimately show ?thesis using False
      by (subst str_nat.simps) (simp add: decimal_value_snoc)
  qed
qed

lemma str_nat_nonempty: "str_nat n \<noteq> []"
  by (subst str_nat.simps) simp

lemma str_nat_short: "n < 10 \<Longrightarrow> length (str_nat n) = 1"
  by (subst str_nat.simps) simp

lemma str_nat_leading: "0 < n \<Longrightarrow> hd (str_nat n) \<noteq> CHR ''0''"
proof (induction n rule: str_nat.induct)
  case (1 n)
  show ?case
  proof (cases "n < 10")
    case True
    from digit_char(3)[OF True 1(2)] True show ?thesis by (subst str_nat.simps) simp
  next
    case False
    then have "0 < n div 10" by simp
    with 1 False have "hd (str_nat (n div 10)) \<noteq> CHR ''0''" by simp
    then show ?thesis using False
      by (subst str_nat.simps) (simp add: str_nat_nonempty)
  qed
qed

lemma decimal_value_zeros: "decimal_value (replicate k (CHR ''0'') @ s) = decimal_value s"
proof -
  have "foldl (\<lambda>a c. 10 * a + digit_val c) 0 (replicate k (CHR ''0'')) = 0"
    by (induction k) (simp_all add: digit_val_def)
  then show ?thesis by (simp add: decimal_value_def)
qed

lemma format_0d_zero_padded:
  assumes "0 < w"
  shows "zero_padded w n (format_0d w n)"
proof -
  have z: "is_digit (CHR ''0'')" by (simp add: is_digit_def)
  have d: "list_all is_digit (format_0d w n)"
    using str_nat_digits[of n] z by (auto simp: format_0d_def list_all_iff)
  have v: "decimal_value (format_0d w n) = n"
    by (simp add: format_0d_def decimal_value_zeros decimal_value_str_nat)
  have l: "length (format_0d w n) = w \<or> (w < length (format_0d w n) \<and> hd (format_0d w n) \<noteq> CHR ''0'')"
  proof (cases "length (str_nat n) \<le> w")
    case True
    then show ?thesis by (simp add: format_0d_def)
  next
    case False
    then have long: "w < length (str_nat n)" by simp
    with assms have "1 < length (str_nat n)" by simp
    then have "\<not> n < 10" using str_nat_short[of n] by auto
    then have "hd (str_nat n) \<noteq> CHR ''0''" by (simp add: str_nat_leading)
    with long show ?thesis by (simp add: format_0d_def)
  qed
  from d v l show ?thesis by (simp add: zero_padded_def)
qed

lemma no_space_digit: "is_digit c \<Longrightarrow> \<not> is_space c"
  by (auto simp: is_digit_def is_space_def)

lemma split_acc_word:
  "list_all (\<lambda>c. \<not> is_space c) v \<Longrightarrow> split_acc cur (v @ rest) = split_acc (cur @ v) rest"
  by (induction v arbitrary: cur) simp_all

lemma split_acc_single:
  assumes "list_all (\<lambda>c. \<not> is_space c) v" "v \<noteq> []"
  shows "split_acc [] v = [v]"
proof -
  have "split_acc [] (v @ []) = split_acc ([] @ v) []" using assms(1) by (rule split_acc_word)
  with assms(2) show ?thesis by simp
qed

lemma split_acc_nonempty:
  assumes "list_all (\<lambda>c. \<not> is_space c) v" "v \<noteq> []" "is_space sp"
  shows "split_acc cur (pre @ sp # v) \<noteq> []"
  using split_acc_single[OF assms(1,2)] assms(3)
  by (induction pre arbitrary: cur) simp_all

lemma split_acc_last:
  assumes "list_all (\<lambda>c. \<not> is_space c) v" "v \<noteq> []" "is_space sp"
  shows "last (split_acc cur (pre @ sp # v)) = v"
proof (induction pre arbitrary: cur)
  case Nil
  from split_acc_single[OF assms(1,2)] assms(3) show ?case by simp
next
  case (Cons c pre)
  from split_acc_nonempty[OF assms] have "split_acc [] (pre @ sp # v) \<noteq> []" .
  with Cons show ?case by simp
qed

lemma format_0d_no_space: "list_all (\<lambda>c. \<not> is_space c) (format_0d w n)"
proof -
  have "\<not> is_space (CHR ''0'')" by (simp add: is_space_def)
  with str_nat_digits[of n] show ?thesis
    by (auto simp: format_0d_def list_all_iff dest: no_space_digit)
qed

lemma ffmpeg_output_arg:
  "last (py_split (ffmpeg_args tmp (movie_name i))) = ''movie_'' @ format_0d 3 i @ ''.mp4''"
proof -
  let ?v = "''movie_'' @ format_0d 3 i @ ''.mp4''"
  have ns: "list_all (\<lambda>c. \<not> is_space c) ?v"
    using format_0d_no_space[of 3 i] by (simp add: is_space_def)
  have sp: "is_space (CHR '' '')" by (simp add: is_space_def)
  have e: "ffmpeg_args tmp (movie_name i)
            = (''ffmpeg -f image2 -i '' @ tmp @ ''/%06d.jpg -r '' @ str_int FFMPEG_RATE) @ CHR '' '' # ?v"
    by (simp add: ffmpeg_args_def movie_name_def)
  show ?thesis
    unfolding py_split_def e
    by (rule split_acc_last[OF ns _ sp]) simp
qed

lemma make_links_trace:
  assumes "brace_free tmp" "\<forall>tr argv. w tr argv \<noteq> NotStarted"
  shows "make_links w tmp idx fpaths tr
          = (tr @ map (\<lambda>(j, f). Run [''ln'', ''-s'', f, tmp @ ''/'' @ format_0d 6 j @ ''.jpg''])
                    (enumerate idx fpaths), Inr ())"
proof (induction fpaths arbitrary: idx tr)
  case Nil
  show ?case by simp
next
  case (Cons f rest)
  from assms(1) have lp: "link_path tmp idx = Inr (tmp @ ''/'' @ format_0d 6 idx @ ''.jpg'')"
    by (simp add: link_path_def brace_free_def)
  from assms(2) obtain rc out where
    "w tr [''ln'', ''-s'', f, tmp @ ''/'' @ format_0d 6 idx @ ''.jpg''] = Exited rc out"
    by (metis proc.exhaust)
  with lp Cons.IH show ?case
    by (simp add: make_links_step del: make_links.simps)
qed

subsection \<open>The events of a run in which every command can be started\<close>

lemma main_loop_step:
  "main_loop w cwd idx (grp # rest) tr =
     (case assemble_movie w cwd (map snd grp) (movie_name idx)
             (tr @ [Print (''Group '' @ str_nat idx @ '', size '' @ str_nat (length grp))]) of
        (tr2, Inl e) \<Rightarrow> (tr2, Inl e)
      | (tr2, Inr ret) \<Rightarrow>
          main_loop w cwd (Suc idx) rest (tr2 @ [Print (''rc = '' @ str_int ret)]))"
  by (simp only: main_loop.simps Let_def print_def)

lemma run_args_append: "run_args c (a @ b) = run_args c a @ run_args c b"
  by (induction c a rule: run_args.induct) simp_all

lemma run_args_links:
  "run_args c (map (\<lambda>(j, f). Run [''ln'', ''-s'', f, L j]) xs)
     = (if c = ''ln'' then map (\<lambda>(j, f). [''ln'', ''-s'', f, L j]) xs else [])"
  by (induction xs) auto

lemma py_split_ffmpeg_head: "take 1 (py_split (ffmpeg_args tmp name)) = [''ffmpeg'']"
proof -
  have ns: "list_all (\<lambda>c. \<not> is_space c) ''ffmpeg''" by (simp add: is_space_def)
  have sp: "is_space (CHR '' '')" by (simp add: is_space_def)
  have e: "ffmpeg_args tmp name
            = ''ffmpeg'' @ (CHR '' '' # ''-f image2 -i '' @ tmp @ ''/%06d.jpg -r ''
                @ str_int FFMPEG_RATE @ '' '' @ name @ ''.mp4'')"
    by (simp add: ffmpeg_args_def)
  show ?thesis
    unfolding py_split_def e split_acc_word[OF ns] using sp by simp
qed

lemma assemble_movie_trace:
  assumes started: "\<And>tr argv. w tr argv \<noteq> NotStarted"
    and listed: "\<And>tr d. \<exists>out. w tr [''ls'', ''-l'', d] = Exited 0 out"
    and mk: "w tr mkdir_cmd = Exited 0 out"
    and bf: "brace_free (py_strip out)"
    and ne: "in_files_of fpaths \<noteq> []"
  shows "\<exists>listing ret. assemble_movie w cwd fpaths name tr =
     (tr @ [Run mkdir_cmd, Print (''Made tmp dir '' @ py_strip out)]
         @ map (\<lambda>(j, f). Run [''ln'', ''-s'', f, py_strip out @ ''/'' @ format_0d 6 j @ ''.jpg''])
             (enumerate 0 (map (\<lambda>f. cwd @ ''/'' @ f) (in_files_of fpaths)))
         @ [Run [''ls'', ''-l'', py_strip out], Print listing,
            Print (''Assembling movie '' @ name @ ''.mp4 ...''),
            Print (''Running: '' @ ffmpeg_args (py_strip out) name),
            Run (py_split (ffmpeg_args (py_strip out) name)),
            Print ''Cleaning up tmp dir'',
            Run [''rm'', ''-rf'', py_strip out]], Inr ret)"
proof -
  let ?tmp = "py_strip out"
  let ?full = "map (\<lambda>f. cwd @ ''/'' @ f) (in_files_of fpaths)"
  let ?tr2 = "tr @ [Run mkdir_cmd, Print (''Made tmp dir '' @ ?tmp)]"
  let ?links = "map (\<lambda>(j, f). Run [''ln'', ''-s'', f, ?tmp @ ''/'' @ format_0d 6 j @ ''.jpg''])
             (enumerate 0 ?full)"
  let ?tr3 = "?tr2 @ ?links"
  from started have st: "\<forall>tr argv. w tr argv \<noteq> NotStarted" by blast
  have ml: "make_links w ?tmp 0 ?full ?tr2 = (?tr3, Inr ())"
    by (rule make_links_trace[OF bf st])
  from listed[of ?tr3 ?tmp] obtain listing where
    ls: "w ?tr3 [''ls'', ''-l'', ?tmp] = Exited 0 listing" by blast
  let ?tr1 = "?tr3 @ [Run [''ls'', ''-l'', ?tmp], Print listing]"
  have en: "sequential_links_enter w ?full tr = (?tr1, Inr ?tmp)"
    unfolding sequential_links_enter_cases mk
    by (simp only: proc.case ml prod.case sum.case ls) simp
  let ?p = "?tr1 @ [Print (''Assembling movie '' @ name @ ''.mp4 ...''),
                    Print (''Running: '' @ ffmpeg_args ?tmp name)]"
  from started[of ?p "py_split (ffmpeg_args ?tmp name)"] obtain ret o1 where
    ff: "w ?p (py_split (ffmpeg_args ?tmp name)) = Exited ret o1"
    by (metis proc.exhaust)
  let ?q = "?tr1 @ [Print (''Assembling movie '' @ name @ ''.mp4 ...''),
                    Print (''Running: '' @ ffmpeg_args ?tmp name),
                    Run (py_split (ffmpeg_args ?tmp name)),
                    Print ''Cleaning up tmp dir'']"
  from started[of ?q "[''rm'', ''-rf'', ?tmp]"] obtain r2 o2 where
    rm: "w ?q [''rm'', ''-rf'', ?tmp] = Exited r2 o2"
    by (metis proc.exhaust)
  have "assemble_movie w cwd fpaths name tr =
     (?tr1 @ [Print (''Assembling movie '' @ name @ ''.mp4 ...''),
              Print (''Running: '' @ ffmpeg_args ?tmp name),
              Run (py_split (ffmpeg_args ?tmp name)),
              Print ''Cleaning up tmp dir'',
              Run [''rm'', ''-rf'', ?tmp]], Inr ret)"
    unfolding assemble_movie_cases[OF ne] en
    by (simp only: prod.case sum.case ff rm proc.case)
  then show ?thesis by simp
qed

lemma py_split_ffmpeg_head_Suc:
  "take (Suc 0) (py_split (ffmpeg_args tmp name)) = [''ffmpeg'']"
  using py_split_ffmpeg_head[of tmp name] by simp

lemma last_of_links:
  "map (last \<circ> (\<lambda>(j, f). [''ln'', ''-s'', f, L j])) (enumerate 0 xs) = map L [0..<length xs]"
proof -
  have "last \<circ> (\<lambda>(j, f). [''ln'', ''-s'', f, L j]) = L \<circ> fst"
    by (auto simp: fun_eq_iff)
  then have "map (last \<circ> (\<lambda>(j, f). [''ln'', ''-s'', f, L j])) (enumerate 0 xs)
               = map (L \<circ> fst) (enumerate 0 xs)"
    by (simp only:)
  also have "\<dots> = map L (map fst (enumerate 0 xs))" by (simp only: map_map)
  also have "\<dots> = map L [0..<length xs]" by (simp only: map_fst_enumerate add_0)
  finally show ?thesis .
qed

lemma assemble_movie_runs:
  assumes started: "\<And>tr argv. w tr argv \<noteq> NotStarted"
    and made: "\<And>tr. \<exists>out. w tr mkdir_cmd = Exited 0 out \<and> brace_free (py_strip out)"
    and listed: "\<And>tr d. \<exists>out. w tr [''ls'', ''-l'', d] = Exited 0 out"
  shows "\<exists>tr' ret. assemble_movie w cwd fpaths name tr = (tr', Inr ret)
           \<and> run_args ''ffmpeg'' tr'
               = run_args ''ffmpeg'' tr
                 @ (if in_files_of fpaths = [] then []
                    else [py_split (ffmpeg_args (py_strip (case w tr mkdir_cmd of Exited rc out \<Rightarrow> out | NotStarted \<Rightarrow> [])) name)])"
proof (cases "in_files_of fpaths = []")
  case True
  then show ?thesis by (simp add: assemble_movie_def print_def run_args_append)
next
  case False
  from made[of tr] obtain out where mk: "w tr mkdir_cmd = Exited 0 out"
    and bf: "brace_free (py_strip out)" by blast
  from assemble_movie_trace[of w tr out fpaths cwd name, OF started listed mk bf False]
  obtain listing ret where a: "assemble_movie w cwd fpaths name tr =
     (tr @ [Run mkdir_cmd, Print (''Made tmp dir '' @ py_strip out)]
         @ map (\<lambda>(j, f). Run [''ln'', ''-s'', f, py_strip out @ ''/'' @ format_0d 6 j @ ''.jpg''])
             (enumerate 0 (map (\<lambda>f. cwd @ ''/'' @ f) (in_files_of fpaths)))
         @ [Run [''ls'', ''-l'', py_strip out], Print listing,
            Print (''Assembling movie '' @ name @ ''.mp4 ...''),
            Print (''Running: '' @ ffmpeg_args (py_strip out) name),
            Run (py_split (ffmpeg_args (py_strip out) name)),
            Print ''Cleaning up tmp dir'',
            Run [''rm'', ''-rf'', py_strip out]], Inr ret)" by blast
  have "run_args ''ffmpeg'' (fst (assemble_movie w cwd fpaths name tr))
          = run_args ''ffmpeg'' tr @ [py_split (ffmpeg_args (py_strip out) name)]"
    unfolding a
    by (simp add: run_args_append run_args_links mkdir_cmd_eq py_split_ffmpeg_head_Suc)
  with a False mk show ?thesis by simp
qed

lemma main_loop_outputs:
  assumes started: "\<And>tr argv. w tr argv \<noteq> NotStarted"
    and made: "\<And>tr. \<exists>out. w tr mkdir_cmd = Exited 0 out \<and> brace_free (py_strip out)"
    and listed: "\<And>tr d. \<exists>out. w tr [''ls'', ''-l'', d] = Exited 0 out"
  shows "\<exists>tr'. main_loop w cwd idx grps tr = (tr', Inr ())
           \<and> map last (run_args ''ffmpeg'' tr')
               = map last (run_args ''ffmpeg'' tr)
                 @ [''movie_'' @ format_0d 3 i @ ''.mp4''.
                      (i, g) \<leftarrow> enumerate idx grps, in_files_of (map snd g) \<noteq> []]"
proof (induction grps arbitrary: idx tr)
  case Nil
  show ?case by simp
next
  case (Cons grp rest)
  let ?tr1 = "tr @ [Print (''Group '' @ str_nat idx @ '', size '' @ str_nat (length grp))]"
  from assemble_movie_runs[of w cwd "map snd grp" "movie_name idx" ?tr1, OF started made listed]
  obtain tr2 ret where
    a: "assemble_movie w cwd (map snd grp) (movie_name idx) ?tr1 = (tr2, Inr ret)"
    and r: "run_args ''ffmpeg'' tr2
               = run_args ''ffmpeg'' ?tr1
                 @ (if in_files_of (map snd grp) = [] then []
                    else [py_split (ffmpeg_args (py_strip (case w ?tr1 mkdir_cmd of Exited rc out \<Rightarrow> out | NotStarted \<Rightarrow> [])) (movie_name idx))])"
    by blast
  have r': "map last (run_args ''ffmpeg'' (tr2 @ [Print (''rc = '' @ str_int ret)]))
              = map last (run_args ''ffmpeg'' tr)
                @ (if in_files_of (map snd grp) = [] then []
                   else [''movie_'' @ format_0d 3 idx @ ''.mp4''])"
    by (simp add: r run_args_append ffmpeg_output_arg)
  from Cons.IH[of "Suc idx" "tr2 @ [Print (''rc = '' @ str_int ret)]"] obtain tr' where
    m: "main_loop w cwd (Suc idx) rest (tr2 @ [Print (''rc = '' @ str_int ret)]) = (tr', Inr ())"
    and o: "map last (run_args ''ffmpeg'' tr')
               = map last (run_args ''ffmpeg'' (tr2 @ [Print (''rc = '' @ str_int ret)]))
                 @ [''movie_'' @ format_0d 3 i @ ''.mp4''.
                      (i, g) \<leftarrow> enumerate (Suc idx) rest, in_files_of (map snd g) \<noteq> []]"
    by blast
  have "main_loop w cwd idx (grp # rest) tr = (tr', Inr ())"
    unfolding main_loop_step a using m by (simp only: prod.case sum.case)
  moreover have "map last (run_args ''ffmpeg'' tr')
               = map last (run_args ''ffmpeg'' tr)
                 @ [''movie_'' @ format_0d 3 i @ ''.mp4''.
                      (i, g) \<leftarrow> enumerate idx (grp # rest), in_files_of (map snd g) \<noteq> []]"
    unfolding o r' by simp
  ultimately show ?case by blast
qed

lemma assemble_movie_links:
  assumes started: "\<And>tr argv. w tr argv \<noteq> NotStarted"
    and listed: "\<And>tr d. \<exists>out. w tr [''ls'', ''-l'', d] = Exited 0 out"
    and mk: "w tr mkdir_cmd = Exited 0 out"
    and bf: "brace_free (py_strip out)"
  shows "map last (run_args ''ln'' (fst (assemble_movie w cwd fpaths name tr)))
           = map last (run_args ''ln'' tr)
             @ map (\<lambda>j. py_strip out @ ''/'' @ format_0d 6 j @ ''.jpg'')
                 [0..<length (in_files_of fpaths)]"
proof (cases "in_files_of fpaths = []")
  case True
  then show ?thesis by (simp add: assemble_movie_def print_def run_args_append)
next
  case False
  from assemble_movie_trace[of w tr out fpaths cwd name, OF started listed mk bf False]
  obtain listing ret where a: "assemble_movie w cwd fpaths name tr =
     (tr @ [Run mkdir_cmd, Print (''Made tmp dir '' @ py_strip out)]
         @ map (\<lambda>(j, f). Run [''ln'', ''-s'', f, py_strip out @ ''/'' @ format_0d 6 j @ ''.jpg''])
             (enumerate 0 (map (\<lambda>f. cwd @ ''/'' @ f) (in_files_of fpaths)))
         @ [Run [''ls'', ''-l'', py_strip out], Print listing,
            Print (''Assembling movie '' @ name @ ''.mp4 ...''),
            Print (''Running: '' @ ffmpeg_args (py_strip out) name),
            Run (py_split (ffmpeg_args (py_strip out) name)),
            Print ''Cleaning up tmp dir'',
            Run [''rm'', ''-rf'', py_strip out]], Inr ret)" by blast
  show ?thesis
    unfolding a
    by (simp add: run_args_append run_args_links mkdir_cmd_eq py_split_ffmpeg_head_Suc
          last_of_links)
qed

subsection \<open>C9: the names of the movies and of the links\<close>

lemma names_0_9:
  "map (\<lambda>i. ''movie_'' @ format_0d 3 i @ ''.mp4'') [0..<10]
     = [''movie_000.mp4'', ''movie_001.mp4'', ''movie_002.mp4'', ''movie_003.mp4'',
        ''movie_004.mp4'', ''movie_005.mp4'', ''movie_006.mp4'', ''movie_007.mp4'',
        ''movie_008.mp4'', ''movie_009.mp4'']"
  by code_simp

text \<open>
  C9. For the group with index \<open>i\<close>, counted from 0, the output file that the
  encoder is given (the last argument of its command line) is \<open>movie_\<close>, then
  \<open>i\<close> zero-padded to width 3, then \<open>.mp4\<close>; for the indices 0 to 9 these are
  \<open>movie_000.mp4\<close> to \<open>movie_009.mp4\<close>. For the \<open>j\<close>-th staged file, counted
  from 0, the link made in the staging directory is named \<open>j\<close> zero-padded to
  width 6, then \<open>.jpg\<close>: when every \<^verbatim>\<open>ln\<close> can be started and the name of
  the directory holds no brace, the loop runs one \<^verbatim>\<open>ln -s\<close> per file, in
  order, with these names.

  The numbering is that of the program. In a world where every command can be started
  and \<^verbatim>\<open>mktemp\<close> and \<^verbatim>\<open>ls\<close> succeed, the loop of \<open>main\<close>, started
  at index 0, and \<open>main\<close> itself on the groups that \<open>group_by_mtime\<close> returns,
  end normally, and the output files of the encoder runs are, in order,
  \<open>movie_\<close> with the zero-padded position of the group and \<open>.mp4\<close>, for every
  group that holds an image (a group without one uses up its index). In such a world
  the links that one \<open>assemble_movie\<close> makes are named, in order, with the
  zero-padded numbers from 0 up to the number of images of the group.
\<close>

theorem output_names:
  "last (py_split (ffmpeg_args tmp' (movie_name i))) = ''movie_'' @ format_0d 3 i @ ''.mp4''
   \<and> zero_padded 3 i (format_0d 3 i)
   \<and> map (\<lambda>i. last (py_split (ffmpeg_args tmp' (movie_name i)))) [0..<10]
       = [''movie_000.mp4'', ''movie_001.mp4'', ''movie_002.mp4'', ''movie_003.mp4'',
          ''movie_004.mp4'', ''movie_005.mp4'', ''movie_006.mp4'', ''movie_007.mp4'',
          ''movie_008.mp4'', ''movie_009.mp4'']
   \<and> zero_padded 6 j (format_0d 6 j)
   \<and> (brace_free tmp \<and> (\<forall>tr argv. w tr argv \<noteq> NotStarted) \<longrightarrow>
        make_links w tmp 0 fpaths tr
          = (tr @ map (\<lambda>(j, f). Run [''ln'', ''-s'', f, tmp @ ''/'' @ format_0d 6 j @ ''.jpg''])
                    (enumerate 0 fpaths), Inr ()))
   \<and> ((\<forall>tr argv. v tr argv \<noteq> NotStarted)
        \<and> (\<forall>tr. \<exists>out. v tr mkdir_cmd = Exited 0 out \<and> brace_free (py_strip out))
        \<and> (\<forall>tr d. \<exists>out. v tr [''ls'', ''-l'', d] = Exited 0 out) \<longrightarrow>
        (\<exists>tr'. main_loop v cwd 0 grps [] = (tr', Inr ())
           \<and> map last (run_args ''ffmpeg'' tr')
               = [''movie_'' @ format_0d 3 i @ ''.mp4''.
                    (i, g) \<leftarrow> enumerate 0 grps, in_files_of (map snd g) \<noteq> []])
        \<and> (\<exists>gs tr'. group_by_mtime files MAX_GAP = Inr gs
           \<and> main v cwd files = (tr', Inr ())
           \<and> map last (run_args ''ffmpeg'' tr')
               = [''movie_'' @ format_0d 3 i @ ''.mp4''.
                    (i, g) \<leftarrow> enumerate 0 gs, in_files_of (map snd g) \<noteq> []]))
   \<and> ((\<forall>tr argv. v tr argv \<noteq> NotStarted)
        \<and> (\<forall>tr d. \<exists>out. v tr [''ls'', ''-l'', d] = Exited 0 out)
        \<and> v tr0 mkdir_cmd = Exited 0 out0 \<and> brace_free (py_strip out0) \<longrightarrow>
        map last (run_args ''ln'' (fst (assemble_movie v cwd paths name tr0)))
          = map last (run_args ''ln'' tr0)
            @ map (\<lambda>j. py_strip out0 @ ''/'' @ format_0d 6 j @ ''.jpg'')
                [0..<length (in_files_of paths)])"
proof -
  have a: "last (py_split (ffmpeg_args tmp' (movie_name i))) = ''movie_'' @ format_0d 3 i @ ''.mp4''"
    by (rule ffmpeg_output_arg)
  have b: "zero_padded 3 i (format_0d 3 i)" by (rule format_0d_zero_padded) simp
  have c: "map (\<lambda>i. last (py_split (ffmpeg_args tmp' (movie_name i)))) [0..<10]
       = [''movie_000.mp4'', ''movie_001.mp4'', ''movie_002.mp4'', ''movie_003.mp4'',
          ''movie_004.mp4'', ''movie_005.mp4'', ''movie_006.mp4'', ''movie_007.mp4'',
          ''movie_008.mp4'', ''movie_009.mp4'']"
    unfolding ffmpeg_output_arg by (rule names_0_9)
  have d: "zero_padded 6 j (format_0d 6 j)" by (rule format_0d_zero_padded) simp
  have e: "brace_free tmp \<and> (\<forall>tr argv. w tr argv \<noteq> NotStarted) \<longrightarrow>
        make_links w tmp 0 fpaths tr
          = (tr @ map (\<lambda>(j, f). Run [''ln'', ''-s'', f, tmp @ ''/'' @ format_0d 6 j @ ''.jpg''])
                    (enumerate 0 fpaths), Inr ())"
    using make_links_trace[of tmp w 0 fpaths tr] by blast
  have f: "(\<exists>tr'. main_loop v cwd 0 grps [] = (tr', Inr ())
           \<and> map last (run_args ''ffmpeg'' tr')
               = [''movie_'' @ format_0d 3 i @ ''.mp4''.
                    (i, g) \<leftarrow> enumerate 0 grps, in_files_of (map snd g) \<noteq> []])
        \<and> (\<exists>gs tr'. group_by_mtime files MAX_GAP = Inr gs
           \<and> main v cwd files = (tr', Inr ())
           \<and> map last (run_args ''ffmpeg'' tr')
               = [''movie_'' @ format_0d 3 i @ ''.mp4''.
                    (i, g) \<leftarrow> enumerate 0 gs, in_files_of (map snd g) \<noteq> []])"
    if started: "\<forall>tr argv. v tr argv \<noteq> NotStarted"
      and made: "\<forall>tr. \<exists>out. v tr mkdir_cmd = Exited 0 out \<and> brace_free (py_strip out)"
      and listed: "\<forall>tr d. \<exists>out. v tr [''ls'', ''-l'', d] = Exited 0 out"
  proof -
    have loop: "\<exists>tr'. main_loop v cwd 0 gs [] = (tr', Inr ())
           \<and> map last (run_args ''ffmpeg'' tr')
               = [''movie_'' @ format_0d 3 i @ ''.mp4''.
                    (i, g) \<leftarrow> enumerate 0 gs, in_files_of (map snd g) \<noteq> []]" for gs
      using main_loop_outputs[of v cwd 0 gs "[]"] started made listed by simp
    from group_by_mtime_Inr[of files MAX_GAP] obtain gs where
      g: "group_by_mtime files MAX_GAP = Inr gs" by blast
    then have "main v cwd files = main_loop v cwd 0 gs []" by (simp add: main_def)
    with loop[of gs] g loop[of grps] show ?thesis by auto
  qed
  have h: "map last (run_args ''ln'' (fst (assemble_movie v cwd paths name tr0)))
          = map last (run_args ''ln'' tr0)
            @ map (\<lambda>j. py_strip out0 @ ''/'' @ format_0d 6 j @ ''.jpg'')
                [0..<length (in_files_of paths)]"
    if "\<forall>tr argv. v tr argv \<noteq> NotStarted"
      and "\<forall>tr d. \<exists>out. v tr [''ls'', ''-l'', d] = Exited 0 out"
      and "v tr0 mkdir_cmd = Exited 0 out0" and "brace_free (py_strip out0)"
    using assemble_movie_links[of v tr0 out0 cwd paths name] that by blast
  from a b c d e f h show ?thesis by blast
qed

theorem output_names_witness:
  "last (py_split (ffmpeg_args ''/tmp/make_movie.abc123'' (movie_name 7))) = ''movie_007.mp4''
   \<and> zero_padded 3 7 ''007''
   \<and> zero_padded 6 12 ''000012''
   \<and> brace_free ''/tmp/make_movie.abc123''
   \<and> make_links (world_of (Exited 0 []) (Exited 0 []) (Exited 0 []) (Exited 0 []) (Exited 0 []))
        ''/tmp/make_movie.abc123'' 0 [''/home/u/x.jpg'', ''/home/u/y.jpg''] []
       = ([Run [''ln'', ''-s'', ''/home/u/x.jpg'', ''/tmp/make_movie.abc123/000000.jpg''],
           Run [''ln'', ''-s'', ''/home/u/y.jpg'', ''/tmp/make_movie.abc123/000001.jpg'']], Inr ())
   \<and> snd (main (world_of (Exited 0 (''/tmp/make_movie.abc123'' @ [CHR 0x0A])) (Exited 0 [])
                  (Exited 0 ''total 0'') (Exited 3 []) (Exited 0 []))
            ''/home/u'' [(102000000, ''e.jpg''), (0, ''a.jpg''), (500000, ''c.jpg'')]) = Inr ()
   \<and> map last (run_args ''ffmpeg''
         (fst (main (world_of (Exited 0 (''/tmp/make_movie.abc123'' @ [CHR 0x0A])) (Exited 0 [])
                  (Exited 0 ''total 0'') (Exited 3 []) (Exited 0 []))
            ''/home/u'' [(102000000, ''e.jpg''), (0, ''a.jpg''), (500000, ''c.jpg'')])))
       = [''movie_000.mp4'', ''movie_001.mp4'']
   \<and> map last (run_args ''ln''
         (fst (assemble_movie
            (world_of (Exited 0 (''/tmp/make_movie.abc123'' @ [CHR 0x0A])) (Exited 0 [])
                  (Exited 0 ''total 0'') (Exited 3 []) (Exited 0 []))
            ''/home/u'' [''a.jpg'', ''notes.txt'', ''c.jpg''] ''movie_000'' [])))
       = [''/tmp/make_movie.abc123/000000.jpg'', ''/tmp/make_movie.abc123/000001.jpg'']"
proof -
  let ?w = "world_of (Exited 0 []) (Exited 0 []) (Exited 0 []) (Exited 0 []) (Exited 0 [])"
  let ?v = "world_of (Exited 0 (''/tmp/make_movie.abc123'' @ [CHR 0x0A])) (Exited 0 [])
                  (Exited 0 ''total 0'') (Exited 3 []) (Exited 0 [])"
  let ?files = "[(102000000::int, ''e.jpg''), (0, ''a.jpg''), (500000, ''c.jpg'')]"
  let ?gs = "[[(0::int, ''a.jpg''), (500000, ''c.jpg'')], [(102000000, ''e.jpg'')]]"
  have f3: "format_0d 3 7 = ''007''" by code_simp
  have f6: "format_0d 6 12 = ''000012''" by code_simp
  have f0: "format_0d 6 0 = ''000000''" by code_simp
  have f1: "format_0d 6 (Suc 0) = ''000001''" by code_simp
  have bf: "brace_free ''/tmp/make_movie.abc123''" by (simp add: brace_free_def)
  have st: "\<forall>tr argv. ?w tr argv \<noteq> NotStarted" by (simp add: world_of_def)
  have ps: "py_strip (''/tmp/make_movie.abc123'' @ [CHR 0x0A]) = ''/tmp/make_movie.abc123''"
    by code_simp
  have sv: "\<forall>tr argv. ?v tr argv \<noteq> NotStarted" by (simp add: world_of_def)
  have mk: "?v tr mkdir_cmd = Exited 0 (''/tmp/make_movie.abc123'' @ [CHR 0x0A])" for tr
    by (simp add: world_of_def mkdir_cmd_eq)
  have mv: "\<forall>tr. \<exists>out. ?v tr mkdir_cmd = Exited 0 out \<and> brace_free (py_strip out)"
    using mk ps bf by (metis (no_types))
  have lv: "\<forall>tr d. \<exists>out. ?v tr [''ls'', ''-l'', d] = Exited 0 out"
    by (simp add: world_of_def)
  have g: "group_by_mtime ?files MAX_GAP = Inr ?gs" by code_simp
  have n: "[''movie_'' @ format_0d 3 i @ ''.mp4''.
              (i, g) \<leftarrow> enumerate 0 ?gs, in_files_of (map snd g) \<noteq> []]
             = [''movie_000.mp4'', ''movie_001.mp4'']"
    by code_simp
  have l: "map (\<lambda>j. ''/tmp/make_movie.abc123'' @ ''/'' @ format_0d 6 j @ ''.jpg'')
             [0..<length (in_files_of [''a.jpg'', ''notes.txt'', ''c.jpg''])]
           = [''/tmp/make_movie.abc123/000000.jpg'', ''/tmp/make_movie.abc123/000001.jpg'']"
    by code_simp
  note T = output_names[where tmp' = "''/tmp/make_movie.abc123''" and i = 7 and j = 12
      and tmp = "''/tmp/make_movie.abc123''" and w = ?w
      and fpaths = "[''/home/u/x.jpg'', ''/home/u/y.jpg'']" and tr = "[]"
      and v = ?v and cwd = "''/home/u''" and grps = ?gs and files = ?files
      and ?tr0.0 = "[]" and ?out0.0 = "''/tmp/make_movie.abc123'' @ [CHR 0x0A]"
      and paths = "[''a.jpg'', ''notes.txt'', ''c.jpg'']" and name = "''movie_000''"]
  from T have old:
    "last (py_split (ffmpeg_args ''/tmp/make_movie.abc123'' (movie_name 7))) = ''movie_007.mp4''
     \<and> zero_padded 3 7 ''007''
     \<and> zero_padded 6 12 ''000012''
     \<and> make_links ?w ''/tmp/make_movie.abc123'' 0 [''/home/u/x.jpg'', ''/home/u/y.jpg''] []
       = ([Run [''ln'', ''-s'', ''/home/u/x.jpg'', ''/tmp/make_movie.abc123/000000.jpg''],
           Run [''ln'', ''-s'', ''/home/u/y.jpg'', ''/tmp/make_movie.abc123/000001.jpg'']], Inr ())"
    using bf st by (simp add: f3 f6 f0 f1 enumerate_simps)
  from T sv mv lv have
    "\<exists>gs tr'. group_by_mtime ?files MAX_GAP = Inr gs
           \<and> main ?v ''/home/u'' ?files = (tr', Inr ())
           \<and> map last (run_args ''ffmpeg'' tr')
               = [''movie_'' @ format_0d 3 i @ ''.mp4''.
                    (i, g) \<leftarrow> enumerate 0 gs, in_files_of (map snd g) \<noteq> []]"
    by blast
  then obtain gs tr' where g': "group_by_mtime ?files MAX_GAP = Inr gs"
    and m: "main ?v ''/home/u'' ?files = (tr', Inr ())"
    and o: "map last (run_args ''ffmpeg'' tr')
               = [''movie_'' @ format_0d 3 i @ ''.mp4''.
                    (i, g) \<leftarrow> enumerate 0 gs, in_files_of (map snd g) \<noteq> []]"
    by blast
  from g g' have "gs = ?gs" by simp
  with o n have o': "map last (run_args ''ffmpeg'' tr') = [''movie_000.mp4'', ''movie_001.mp4'']"
    by (simp only:)
  from T sv lv mk[of "[]"] bf ps have
    "map last (run_args ''ln'' (fst (assemble_movie ?v ''/home/u''
        [''a.jpg'', ''notes.txt'', ''c.jpg''] ''movie_000'' [])))
      = map last (run_args ''ln'' [])
        @ map (\<lambda>j. py_strip (''/tmp/make_movie.abc123'' @ [CHR 0x0A]) @ ''/'' @ format_0d 6 j @ ''.jpg'')
            [0..<length (in_files_of [''a.jpg'', ''notes.txt'', ''c.jpg''])]"
    by (simp only: ps) blast
  then have k: "map last (run_args ''ln'' (fst (assemble_movie ?v ''/home/u''
        [''a.jpg'', ''notes.txt'', ''c.jpg''] ''movie_000'' [])))
      = [''/tmp/make_movie.abc123/000000.jpg'', ''/tmp/make_movie.abc123/000001.jpg'']"
    by (simp only: ps l run_args.simps list.map append_Nil)
  from old bf m o' k show ?thesis by simp
qed

subsection \<open>C10: what the filter keeps\<close>

lemma make_links_first:
  assumes "brace_free tmp"
  shows "Run [''ln'', ''-s'', f, tmp @ ''/000000.jpg'']
           \<in> set (fst (make_links w tmp 0 (f # rest) tr))"
proof -
  have f0: "format_0d 6 0 = ''000000''" by code_simp
  let ?ev = "Run [''ln'', ''-s'', f, tmp @ ''/000000.jpg'']"
  from assms have lp: "link_path tmp 0 = Inr (tmp @ ''/000000.jpg'')"
    by (simp add: link_path_def brace_free_def f0)
  show ?thesis
  proof (cases "w tr [''ln'', ''-s'', f, tmp @ ''/000000.jpg'']")
    case NotStarted
    with lp show ?thesis by (simp add: make_links_step del: make_links.simps)
  next
    case (Exited rc out)
    from make_links_events[of w tmp "Suc 0" rest "tr @ [?ev]"] obtain new where
      "fst (make_links w tmp (Suc 0) rest (tr @ [?ev])) = (tr @ [?ev]) @ new" by blast
    with lp Exited show ?thesis by (simp add: make_links_step del: make_links.simps)
  qed
qed

lemma sequential_links_enter_extends:
  assumes "w tr mkdir_cmd = Exited 0 out"
  shows "set (fst (make_links w (py_strip out) 0 fpaths
                     (tr @ [Run mkdir_cmd, Print (''Made tmp dir '' @ py_strip out)])))
           \<subseteq> set (fst (sequential_links_enter w fpaths tr))"
  using assms
  by (auto simp: sequential_links_enter_cases split: prod.splits sum.splits proc.splits)

lemma assemble_movie_extends:
  assumes "in_files_of fpaths \<noteq> []"
  shows "set (fst (sequential_links_enter w (map (\<lambda>f. cwd @ ''/'' @ f) (in_files_of fpaths)) tr))
           \<subseteq> set (fst (assemble_movie w cwd fpaths name tr))"
  using assms
  by (auto simp: assemble_movie_cases split: prod.splits sum.splits proc.splits)

text \<open>
  C10. The filter of \<open>assemble_movie\<close> keeps exactly the paths whose last three
  characters are \<open>jpg\<close>, in their order. Such a path is staged whether or not a
  dot precedes \<open>jpg\<close>: when it is the first path of the group and
  \<^verbatim>\<open>mktemp\<close> succeeds, \<^verbatim>\<open>ln -s\<close> is run for it with the link name
  \<open>000000.jpg\<close>.
\<close>

theorem image_filter_last_three:
  "in_files_of fpaths = filter (suffix ''jpg'') fpaths
   \<and> (w tr mkdir_cmd = Exited 0 out \<and> brace_free (py_strip out) \<and> suffix ''jpg'' f \<longrightarrow>
        Run [''ln'', ''-s'', cwd @ ''/'' @ f, py_strip out @ ''/000000.jpg'']
          \<in> set (fst (assemble_movie w cwd (f # rest) name tr)))"
proof -
  have "Run [''ln'', ''-s'', cwd @ ''/'' @ f, py_strip out @ ''/000000.jpg'']
          \<in> set (fst (assemble_movie w cwd (f # rest) name tr))"
    if mk: "w tr mkdir_cmd = Exited 0 out" and bf: "brace_free (py_strip out)" and sf: "suffix ''jpg'' f"
  proof -
    from sf have i: "in_files_of (f # rest) = f # in_files_of rest"
      by (simp add: in_files_of_suffix)
    then have ne: "in_files_of (f # rest) \<noteq> []" by simp
    have "Run [''ln'', ''-s'', cwd @ ''/'' @ f, py_strip out @ ''/000000.jpg'']
            \<in> set (fst (make_links w (py_strip out) 0
                     (map (\<lambda>f. cwd @ ''/'' @ f) (in_files_of (f # rest)))
                     (tr @ [Run mkdir_cmd, Print (''Made tmp dir '' @ py_strip out)])))"
      unfolding i using make_links_first[OF bf] by simp
    moreover note sequential_links_enter_extends
        [of w tr out "map (\<lambda>f. cwd @ ''/'' @ f) (in_files_of (f # rest))", OF mk]
    moreover note assemble_movie_extends[OF ne, of w cwd tr name]
    ultimately show ?thesis by blast
  qed
  then show ?thesis by (simp add: in_files_of_suffix)
qed

theorem image_filter_last_three_witness:
  "\<not> suffix ''.jpg'' ''photojpg''
   \<and> in_files_of [''photojpg'', ''b.png'', ''c.jpg''] = [''photojpg'', ''c.jpg'']
   \<and> Run [''ln'', ''-s'', ''/home/u/photojpg'', ''/tmp/make_movie.abc123/000000.jpg'']
       \<in> set (fst (assemble_movie
            (world_of (Exited 0 (''/tmp/make_movie.abc123'' @ [CHR 0x0A])) (Exited 0 [])
               (Exited 0 []) (Exited 0 []) (Exited 0 []))
            ''/home/u'' [''photojpg'', ''b.png'', ''c.jpg''] ''movie_000'' []))"
proof -
  let ?w = "world_of (Exited 0 (''/tmp/make_movie.abc123'' @ [CHR 0x0A])) (Exited 0 [])
               (Exited 0 []) (Exited 0 []) (Exited 0 [])"
  have s1: "\<not> suffix ''.jpg'' ''photojpg''" by code_simp
  have s2: "suffix ''jpg'' ''photojpg''" by code_simp
  have s3: "filter (suffix ''jpg'') [''photojpg'', ''b.png'', ''c.jpg''] = [''photojpg'', ''c.jpg'']"
    by code_simp
  have mk: "?w [] mkdir_cmd = Exited 0 (''/tmp/make_movie.abc123'' @ [CHR 0x0A])" by code_simp
  have st: "py_strip (''/tmp/make_movie.abc123'' @ [CHR 0x0A]) = ''/tmp/make_movie.abc123''"
    by code_simp
  have bf: "brace_free ''/tmp/make_movie.abc123''" by (simp add: brace_free_def)
  from image_filter_last_three[of "[''photojpg'', ''b.png'', ''c.jpg'']" ?w "[]"
      "''/tmp/make_movie.abc123'' @ [CHR 0x0A]" "''photojpg''" "''/home/u''"
      "[''b.png'', ''c.jpg'']" "''movie_000''"]
    s1 s2 s3 mk bf
  show ?thesis by (simp only: st) simp
qed

subsection \<open>C5: one group after another\<close>

text \<open>
  C5, as stated, fails: the input makes two groups; \<^verbatim>\<open>mktemp\<close> exits with
  status 1 for the first one, \<open>sys.exit(1)\<close> ends the whole run, and the second
  group is never processed.
\<close>

theorem main_stops_at_mktemp_failure:
  "group_by_mtime [(0, ''a.jpg''), (100000000, ''b.jpg'')] MAX_GAP
     = Inr [[(0, ''a.jpg'')], [(100000000, ''b.jpg'')]]
   \<and> main (world_of (Exited 1 []) (Exited 0 []) (Exited 0 []) (Exited 0 []) (Exited 0 []))
        ''/home/u'' [(0, ''a.jpg''), (100000000, ''b.jpg'')]
     = ([Print ''Group 0, size 1'',
         Run [''mktemp'', ''-d'', ''-p'', ''/tmp'', ''make_movie.XXXXXX''],
         Print ''ERROR: failed to create tmp dir. (rc = 1)''],
        Inl (SystemExit 1))"
  by code_simp

text \<open>
  C5, amended. A group without images does not stop the run: 1 is reported and the
  loop goes on with the next group. Neither does the exit status of the encoder,
  zero or not: when the staging succeeds, the encoder exits with any status and
  \<^verbatim>\<open>rm\<close> can be started, that status is reported and the loop goes on with
  the next group. When \<^verbatim>\<open>mktemp\<close> exits with a nonzero status for a group
  that holds an image, the failure is reported and the run ends there with
  \<open>SystemExit 1\<close>: the remaining groups are not processed.
\<close>

theorem main_loop_continues:
  "(in_files_of (map snd grp) = [] \<longrightarrow>
      main_loop w cwd idx (grp # rest) tr
        = main_loop w cwd (Suc idx) rest
            (tr @ [Print (''Group '' @ str_nat idx @ '', size '' @ str_nat (length grp)),
                   Print ''Abort: no jpg files found in group!'',
                   Print ''rc = 1'']))
   \<and> (in_files_of (map snd grp) \<noteq> []
       \<and> sequential_links_enter w (map (\<lambda>f. cwd @ ''/'' @ f) (in_files_of (map snd grp)))
            (tr @ [Print (''Group '' @ str_nat idx @ '', size '' @ str_nat (length grp))])
           = (tr1, Inr tmp)
       \<and> w (tr1 @ [Print (''Assembling movie '' @ movie_name idx @ ''.mp4 ...''),
                    Print (''Running: '' @ ffmpeg_args tmp (movie_name idx))])
            (py_split (ffmpeg_args tmp (movie_name idx))) = Exited rc out
       \<and> w (tr1 @ [Print (''Assembling movie '' @ movie_name idx @ ''.mp4 ...''),
                    Print (''Running: '' @ ffmpeg_args tmp (movie_name idx)),
                    Run (py_split (ffmpeg_args tmp (movie_name idx))),
                    Print ''Cleaning up tmp dir''])
            [''rm'', ''-rf'', tmp] = Exited rc2 out2 \<longrightarrow>
      main_loop w cwd idx (grp # rest) tr
        = main_loop w cwd (Suc idx) rest
            (tr1 @ [Print (''Assembling movie '' @ movie_name idx @ ''.mp4 ...''),
                    Print (''Running: '' @ ffmpeg_args tmp (movie_name idx)),
                    Run (py_split (ffmpeg_args tmp (movie_name idx))),
                    Print ''Cleaning up tmp dir'',
                    Run [''rm'', ''-rf'', tmp],
                    Print (''rc = '' @ str_int rc)]))
   \<and> (in_files_of (map snd grp) \<noteq> []
       \<and> w (tr @ [Print (''Group '' @ str_nat idx @ '', size '' @ str_nat (length grp))]) mkdir_cmd
           = Exited rc' out' \<and> rc' \<noteq> 0 \<longrightarrow>
      main_loop w cwd idx (grp # rest) tr
        = (tr @ [Print (''Group '' @ str_nat idx @ '', size '' @ str_nat (length grp)),
                 Run mkdir_cmd,
                 Print (''ERROR: failed to create tmp dir. (rc = '' @ str_int rc' @ '')'')],
           Inl (SystemExit 1)))"
proof -
  have one: "str_int 1 = ''1''" by code_simp
  have a: "in_files_of (map snd grp) = [] \<Longrightarrow>
      main_loop w cwd idx (grp # rest) tr
        = main_loop w cwd (Suc idx) rest
            (tr @ [Print (''Group '' @ str_nat idx @ '', size '' @ str_nat (length grp)),
                   Print ''Abort: no jpg files found in group!'',
                   Print ''rc = 1''])"
  proof -
    assume "in_files_of (map snd grp) = []"
    then have "assemble_movie w cwd (map snd grp) (movie_name idx)
             (tr @ [Print (''Group '' @ str_nat idx @ '', size '' @ str_nat (length grp))])
          = (tr @ [Print (''Group '' @ str_nat idx @ '', size '' @ str_nat (length grp)),
                   Print ''Abort: no jpg files found in group!''], Inr 1)"
      by (simp add: assemble_movie_def print_def)
    then show ?thesis
      unfolding main_loop_step by (simp only: prod.case sum.case one) simp
  qed
  have b: "main_loop w cwd idx (grp # rest) tr
        = main_loop w cwd (Suc idx) rest
            (tr1 @ [Print (''Assembling movie '' @ movie_name idx @ ''.mp4 ...''),
                    Print (''Running: '' @ ffmpeg_args tmp (movie_name idx)),
                    Run (py_split (ffmpeg_args tmp (movie_name idx))),
                    Print ''Cleaning up tmp dir'',
                    Run [''rm'', ''-rf'', tmp],
                    Print (''rc = '' @ str_int rc)])"
    if "in_files_of (map snd grp) \<noteq> []"
      and "sequential_links_enter w (map (\<lambda>f. cwd @ ''/'' @ f) (in_files_of (map snd grp)))
            (tr @ [Print (''Group '' @ str_nat idx @ '', size '' @ str_nat (length grp))])
           = (tr1, Inr tmp)"
      and "w (tr1 @ [Print (''Assembling movie '' @ movie_name idx @ ''.mp4 ...''),
                    Print (''Running: '' @ ffmpeg_args tmp (movie_name idx))])
            (py_split (ffmpeg_args tmp (movie_name idx))) = Exited rc out"
      and "w (tr1 @ [Print (''Assembling movie '' @ movie_name idx @ ''.mp4 ...''),
                    Print (''Running: '' @ ffmpeg_args tmp (movie_name idx)),
                    Run (py_split (ffmpeg_args tmp (movie_name idx))),
                    Print ''Cleaning up tmp dir''])
            [''rm'', ''-rf'', tmp] = Exited rc2 out2"
  proof -
    have "assemble_movie w cwd (map snd grp) (movie_name idx)
             (tr @ [Print (''Group '' @ str_nat idx @ '', size '' @ str_nat (length grp))])
          = (tr1 @ [Print (''Assembling movie '' @ movie_name idx @ ''.mp4 ...''),
                    Print (''Running: '' @ ffmpeg_args tmp (movie_name idx)),
                    Run (py_split (ffmpeg_args tmp (movie_name idx))),
                    Print ''Cleaning up tmp dir'',
                    Run [''rm'', ''-rf'', tmp]], Inr rc)"
      unfolding assemble_movie_cases[OF that(1)] that(2)
      by (simp only: prod.case sum.case that(3) that(4) proc.case)
    then show ?thesis
      unfolding main_loop_step by (simp only: prod.case sum.case) simp
  qed
  have c: "main_loop w cwd idx (grp # rest) tr
        = (tr @ [Print (''Group '' @ str_nat idx @ '', size '' @ str_nat (length grp)),
                 Run mkdir_cmd,
                 Print (''ERROR: failed to create tmp dir. (rc = '' @ str_int rc' @ '')'')],
           Inl (SystemExit 1))"
    if "in_files_of (map snd grp) \<noteq> []"
      and "w (tr @ [Print (''Group '' @ str_nat idx @ '', size '' @ str_nat (length grp))]) mkdir_cmd
           = Exited rc' out'" and "rc' \<noteq> 0"
  proof -
    have "assemble_movie w cwd (map snd grp) (movie_name idx)
             (tr @ [Print (''Group '' @ str_nat idx @ '', size '' @ str_nat (length grp))])
          = (tr @ [Print (''Group '' @ str_nat idx @ '', size '' @ str_nat (length grp)),
                 Run mkdir_cmd,
                 Print (''ERROR: failed to create tmp dir. (rc = '' @ str_int rc' @ '')'')],
           Inl (SystemExit 1))"
      unfolding assemble_movie_cases[OF that(1)] sequential_links_enter_cases that(2)
      using that(3) by (simp only: proc.case if_True prod.case sum.case) simp
    then show ?thesis
      unfolding main_loop_step by (simp only: prod.case sum.case)
  qed
  from a b c show ?thesis by blast
qed


theorem main_loop_continues_witness:
  "main_loop
      (world_of (Exited 0 (''/tmp/make_movie.abc123'' @ [CHR 0x0A])) (Exited 0 [])
         (Exited 0 ''total 0'') (Exited 3 []) (Exited 0 []))
      ''/home/u'' 0 [[(0, ''a.jpg'' @ [CHR 0x0A])], [(100000000, ''b.jpg'')]] []
    = main_loop
        (world_of (Exited 0 (''/tmp/make_movie.abc123'' @ [CHR 0x0A])) (Exited 0 [])
           (Exited 0 ''total 0'') (Exited 3 []) (Exited 0 []))
        ''/home/u'' (Suc 0) [[(100000000, ''b.jpg'')]]
        [Print ''Group 0, size 1'', Print ''Abort: no jpg files found in group!'',
         Print ''rc = 1'']
   \<and> main_loop
      (world_of (Exited 0 (''/tmp/make_movie.abc123'' @ [CHR 0x0A])) (Exited 0 [])
         (Exited 0 ''total 0'') (Exited 3 []) (Exited 0 []))
      ''/home/u'' 0 [[(0, ''a.jpg'')], [(100000000, ''b.jpg'')]] []
    = main_loop
        (world_of (Exited 0 (''/tmp/make_movie.abc123'' @ [CHR 0x0A])) (Exited 0 [])
           (Exited 0 ''total 0'') (Exited 3 []) (Exited 0 []))
        ''/home/u'' (Suc 0) [[(100000000, ''b.jpg'')]]
        [Print ''Group 0, size 1'',
         Run [''mktemp'', ''-d'', ''-p'', ''/tmp'', ''make_movie.XXXXXX''],
         Print ''Made tmp dir /tmp/make_movie.abc123'',
         Run [''ln'', ''-s'', ''/home/u/a.jpg'', ''/tmp/make_movie.abc123/000000.jpg''],
         Run [''ls'', ''-l'', ''/tmp/make_movie.abc123''],
         Print ''total 0'',
         Print ''Assembling movie movie_000.mp4 ...'',
         Print ''Running: ffmpeg -f image2 -i /tmp/make_movie.abc123/%06d.jpg -r 4 movie_000.mp4'',
         Run [''ffmpeg'', ''-f'', ''image2'', ''-i'', ''/tmp/make_movie.abc123/%06d.jpg'', ''-r'',
              ''4'', ''movie_000.mp4''],
         Print ''Cleaning up tmp dir'',
         Run [''rm'', ''-rf'', ''/tmp/make_movie.abc123''],
         Print ''rc = 3'']
   \<and> main_loop
      (world_of (Exited 1 []) (Exited 0 []) (Exited 0 []) (Exited 0 []) (Exited 0 []))
      ''/home/u'' 0 [[(0, ''a.jpg'')], [(100000000, ''b.jpg'')]] []
    = ([Print ''Group 0, size 1'',
        Run [''mktemp'', ''-d'', ''-p'', ''/tmp'', ''make_movie.XXXXXX''],
        Print ''ERROR: failed to create tmp dir. (rc = 1)''],
       Inl (SystemExit 1))"
proof -
  let ?w = "world_of (Exited 0 (''/tmp/make_movie.abc123'' @ [CHR 0x0A])) (Exited 0 [])
         (Exited 0 ''total 0'') (Exited 3 []) (Exited 0 [])"
  let ?v = "world_of (Exited 1 []) (Exited 0 []) (Exited 0 []) (Exited 0 []) (Exited 0 [])"
  let ?tr1 = "[Print ''Group 0, size 1'',
         Run [''mktemp'', ''-d'', ''-p'', ''/tmp'', ''make_movie.XXXXXX''],
         Print ''Made tmp dir /tmp/make_movie.abc123'',
         Run [''ln'', ''-s'', ''/home/u/a.jpg'', ''/tmp/make_movie.abc123/000000.jpg''],
         Run [''ls'', ''-l'', ''/tmp/make_movie.abc123''],
         Print ''total 0'']"
  have g: "''Group '' @ str_nat 0 @ '', size '' @ str_nat (length [(0::int, ''a.jpg'')])
            = ''Group 0, size 1''"
    by code_simp
  have g': "''Group '' @ str_nat 0 @ '', size '' @ str_nat (length [(0::int, ''a.jpg'' @ [CHR 0x0A])])
            = ''Group 0, size 1''"
    by code_simp
  have p1: "''Assembling movie '' @ movie_name 0 @ ''.mp4 ...'' = ''Assembling movie movie_000.mp4 ...''"
    by code_simp
  have p2: "''Running: '' @ ffmpeg_args ''/tmp/make_movie.abc123'' (movie_name 0)
     = ''Running: ffmpeg -f image2 -i /tmp/make_movie.abc123/%06d.jpg -r 4 movie_000.mp4''"
    by code_simp
  have p3: "py_split (ffmpeg_args ''/tmp/make_movie.abc123'' (movie_name 0))
     = [''ffmpeg'', ''-f'', ''image2'', ''-i'', ''/tmp/make_movie.abc123/%06d.jpg'', ''-r'',
              ''4'', ''movie_000.mp4'']"
    by code_simp
  have p4: "''rc = '' @ str_int 3 = ''rc = 3''" by code_simp
  have p5: "''ERROR: failed to create tmp dir. (rc = '' @ str_int 1 @ '')''
              = ''ERROR: failed to create tmp dir. (rc = 1)''" by code_simp
  have mk: "mkdir_cmd = [''mktemp'', ''-d'', ''-p'', ''/tmp'', ''make_movie.XXXXXX'']"
    by (rule mkdir_cmd_eq)
  have e: "in_files_of (map snd [(0::int, ''a.jpg'' @ [CHR 0x0A])]) = []" by code_simp
  have n: "in_files_of (map snd [(0::int, ''a.jpg'')]) \<noteq> []" by code_simp
  have s: "sequential_links_enter ?w
             (map (\<lambda>f. ''/home/u'' @ ''/'' @ f) (in_files_of (map snd [(0::int, ''a.jpg'')])))
             ([] @ [Print (''Group '' @ str_nat 0 @ '', size '' @ str_nat (length [(0::int, ''a.jpg'')]))])
           = (?tr1, Inr ''/tmp/make_movie.abc123'')"
    by code_simp
  have f: "?w (?tr1 @ [Print (''Assembling movie '' @ movie_name 0 @ ''.mp4 ...''),
                    Print (''Running: '' @ ffmpeg_args ''/tmp/make_movie.abc123'' (movie_name 0))])
            (py_split (ffmpeg_args ''/tmp/make_movie.abc123'' (movie_name 0))) = Exited 3 []"
    by code_simp
  have r: "?w (?tr1 @ [Print (''Assembling movie '' @ movie_name 0 @ ''.mp4 ...''),
                    Print (''Running: '' @ ffmpeg_args ''/tmp/make_movie.abc123'' (movie_name 0)),
                    Run (py_split (ffmpeg_args ''/tmp/make_movie.abc123'' (movie_name 0))),
                    Print ''Cleaning up tmp dir''])
            [''rm'', ''-rf'', ''/tmp/make_movie.abc123''] = Exited 0 []"
    by (simp add: world_of_def)
  have m: "?v ([] @ [Print (''Group '' @ str_nat 0 @ '', size '' @ str_nat (length [(0::int, ''a.jpg'')]))])
             mkdir_cmd = Exited 1 []"
    by (simp add: world_of_def mk)
  have c1: "main_loop ?w ''/home/u'' 0 [[(0, ''a.jpg'' @ [CHR 0x0A])], [(100000000, ''b.jpg'')]] []
    = main_loop ?w ''/home/u'' (Suc 0) [[(100000000, ''b.jpg'')]]
        [Print ''Group 0, size 1'', Print ''Abort: no jpg files found in group!'',
         Print ''rc = 1'']"
    using main_loop_continues[where grp = "[(0, ''a.jpg'' @ [CHR 0x0A])]" and w = ?w
        and cwd = "''/home/u''" and idx = 0 and rest = "[[(100000000, ''b.jpg'')]]" and tr = "[]",
        THEN conjunct1, rule_format, OF e]
    by (simp only: g' append_Nil)
  have c2: "main_loop ?w ''/home/u'' 0 [[(0, ''a.jpg'')], [(100000000, ''b.jpg'')]] []
    = main_loop ?w ''/home/u'' (Suc 0) [[(100000000, ''b.jpg'')]]
        (?tr1 @ [Print ''Assembling movie movie_000.mp4 ...'',
         Print ''Running: ffmpeg -f image2 -i /tmp/make_movie.abc123/%06d.jpg -r 4 movie_000.mp4'',
         Run [''ffmpeg'', ''-f'', ''image2'', ''-i'', ''/tmp/make_movie.abc123/%06d.jpg'', ''-r'',
              ''4'', ''movie_000.mp4''],
         Print ''Cleaning up tmp dir'',
         Run [''rm'', ''-rf'', ''/tmp/make_movie.abc123''],
         Print ''rc = 3''])"
    using main_loop_continues[where grp = "[(0, ''a.jpg'')]" and w = ?w
        and cwd = "''/home/u''" and idx = 0 and rest = "[[(100000000, ''b.jpg'')]]" and tr = "[]"
        and ?tr1.0 = ?tr1 and tmp = "''/tmp/make_movie.abc123''" and rc = 3 and out = "[]"
        and ?rc2.0 = 0 and ?out2.0 = "[]",
        THEN conjunct2, THEN conjunct1, rule_format, OF conjI[OF n conjI[OF s conjI[OF f r]]]]
    by (simp only: p1 p2 p3 p4)
  have c3: "main_loop ?v ''/home/u'' 0 [[(0, ''a.jpg'')], [(100000000, ''b.jpg'')]] []
    = ([Print ''Group 0, size 1'',
        Run [''mktemp'', ''-d'', ''-p'', ''/tmp'', ''make_movie.XXXXXX''],
        Print ''ERROR: failed to create tmp dir. (rc = 1)''],
       Inl (SystemExit 1))"
    using main_loop_continues[where grp = "[(0, ''a.jpg'')]" and w = ?v
        and cwd = "''/home/u''" and idx = 0 and rest = "[[(100000000, ''b.jpg'')]]" and tr = "[]"
        and rc' = 1 and out' = "[]",
        THEN conjunct2, THEN conjunct2, rule_format, OF conjI[OF n conjI[OF m]]]
    by (simp only: g p5 mk append_Nil)
  from c1 c2 c3 show ?thesis by simp
qed

end
